theory Spec2Isabelle
  imports Complex_Main "HOL-Library.AList" "HOL-Library.Word"
begin

section \<open>The container library, as far as the writer uses it\<close>

text \<open>
  The chunked trajectory writer of \<^verbatim>\<open>io_tools/OutputWriter.py\<close> drives a netCDF
  container library. A container is modelled by what the writer reads and writes of it:
  ordered attributes, ordered dimensions, ordered variables, and named sub-groups one
  level below the root (the writer never creates or reads a deeper group).
  Faults of the environment (a full disk, missing permissions) are not modelled; the
  library's name-in-use fault and the faults of Python's own indexing are.
\<close>

type_synonym path = "string list"

datatype error = FileNotFoundError | NameInUse | KeyError | IndexError | AttributeError | ValueError

datatype dtype = Int8 | Int16 | Int32 | Int64 | Float32 | Float64 | Datetime64

datatype att_value = AttStr string | AttNum real

datatype nc_dimension = Fixed nat | Unlimited

datatype nc_data = NoData | D1 "real list" | D2 "real list list"

record nc_variable =
  var_datatype :: dtype
  dimensions :: "string list"
  ncattrs :: "(string \<times> att_value) list"
  data :: nc_data

record nc_group =
  attrs :: "(string \<times> att_value) list"
  dims :: "(string \<times> nc_dimension) list"
  variables :: "(string \<times> nc_variable) list"

record nc_dataset =
  root :: nc_group
  groups :: "(string \<times> nc_group) list"

text \<open>
  A raise keeps the state reached so far: what was written before the fault stays
  written. A result is the fault, if any, and the state.
\<close>

type_synonym 's res = "error option \<times> 's"

definition ok :: "'s \<Rightarrow> 's res" where
  "ok s = (None, s)"

definition raise :: "error \<Rightarrow> 's \<Rightarrow> 's res" where
  "raise e s = (Some e, s)"

fun steps :: "('s \<Rightarrow> 's res) list \<Rightarrow> 's \<Rightarrow> 's res" where
  "steps [] s = (None, s)"
| "steps (f # fs) s =
     (case f s of
        (None, s') \<Rightarrow> steps fs s'
      | (Some e, s') \<Rightarrow> (Some e, s'))"

definition empty_group :: nc_group where
  "empty_group = \<lparr>attrs = [], dims = [], variables = []\<rparr>"

definition empty_dataset :: nc_dataset where
  "empty_dataset = \<lparr>root = empty_group, groups = []\<rparr>"

text \<open>\<^verbatim>\<open>group.setncattr(name, value)\<close>, \<^verbatim>\<open>group.name = value\<close>: sets or replaces.\<close>

definition setncattr :: "string \<Rightarrow> att_value \<Rightarrow> nc_group \<Rightarrow> nc_group" where
  "setncattr name v g = g\<lparr>attrs := AList.update name v (attrs g)\<rparr>"

text \<open>\<^verbatim>\<open>group.setncatts(d)\<close>: every entry of the dictionary, in its order.\<close>

definition setncatts :: "(string \<times> att_value) list \<Rightarrow> nc_group \<Rightarrow> nc_group" where
  "setncatts d g = g\<lparr>attrs := fold (\<lambda>(k, v). AList.update k v) d (attrs g)\<rparr>"

text \<open>
  \<^verbatim>\<open>group.createDimension(name, size)\<close>: the library refuses a name in use; a size of
  \<^verbatim>\<open>None\<close> or 0 makes the dimension unlimited.
\<close>

definition createDimension :: "string \<Rightarrow> nat option \<Rightarrow> nc_group \<Rightarrow> nc_group res" where
  "createDimension name sz g =
     (if name \<in> fst ` set (dims g) then raise NameInUse g
      else ok (g\<lparr>dims := dims g @
             [(name, case sz of None \<Rightarrow> Unlimited
                     | Some n \<Rightarrow> if n = 0 then Unlimited else Fixed n)]\<rparr>))"

text \<open>\<^verbatim>\<open>group.createVariable(name, datatype, dimensions)\<close>: refused for a name in use.\<close>

definition createVariable :: "string \<Rightarrow> dtype \<Rightarrow> string list \<Rightarrow> nc_group \<Rightarrow> nc_group res" where
  "createVariable name dt dimnames g =
     (if name \<in> fst ` set (variables g) then raise NameInUse g
      else ok (g\<lparr>variables := variables g @
             [(name, \<lparr>var_datatype = dt, dimensions = dimnames, ncattrs = [], data = NoData\<rparr>)]\<rparr>))"

text \<open>
  A statement on \<^verbatim>\<open>group[name]\<close> or \<^verbatim>\<open>group.variables[name]\<close>: a missing name is a
  \<^verbatim>\<open>KeyError\<close>; otherwise the variable is replaced by what the statement makes of it.
\<close>

definition on_variable :: "string \<Rightarrow> (nc_variable \<Rightarrow> nc_variable res) \<Rightarrow> nc_group \<Rightarrow> nc_group res" where
  "on_variable name f g =
     (case map_of (variables g) name of
        None \<Rightarrow> raise KeyError g
      | Some v \<Rightarrow> (case f v of (e, v') \<Rightarrow> (e, g\<lparr>variables := AList.update name v' (variables g)\<rparr>)))"

text \<open>\<^verbatim>\<open>var.setncatts(d)\<close> and \<^verbatim>\<open>var.name = value\<close>.\<close>

definition var_setncatts :: "(string \<times> att_value) list \<Rightarrow> nc_variable \<Rightarrow> nc_variable res" where
  "var_setncatts d v = ok (v\<lparr>ncattrs := fold (\<lambda>(k, a). AList.update k a) d (ncattrs v)\<rparr>)"

definition var_setncattr :: "string \<Rightarrow> att_value \<Rightarrow> nc_variable \<Rightarrow> nc_variable res" where
  "var_setncattr name a v = ok (v\<lparr>ncattrs := AList.update name a (ncattrs v)\<rparr>)"

text \<open>\<^verbatim>\<open>var[:] = values\<close>: the whole payload is replaced.\<close>

definition assign_all :: "nc_data \<Rightarrow> nc_variable \<Rightarrow> nc_variable res" where
  "assign_all values v = ok (v\<lparr>data := values\<rparr>)"

section \<open>The container copy utility\<close>

text \<open>
  \<^verbatim>\<open>copy_dataset(source, destination)\<close>: the global attributes, then every dimension
  (its length when fixed, \<^verbatim>\<open>None\<close> when unlimited), then every variable: created with
  the source's datatype and dimensions, given the source's attributes, assigned the
  source's payload.
\<close>

definition copy_dimension :: "string \<times> nc_dimension \<Rightarrow> nc_group \<Rightarrow> nc_group res" where
  "copy_dimension nd =
     (case nd of (name, dimension) \<Rightarrow>
        createDimension name (case dimension of Fixed n \<Rightarrow> Some n | Unlimited \<Rightarrow> None))"

definition copy_variable :: "string \<times> nc_variable \<Rightarrow> nc_group \<Rightarrow> nc_group res" where
  "copy_variable nv =
     (case nv of (name, variable) \<Rightarrow>
        steps [createVariable name (var_datatype variable) (dimensions variable),
               on_variable name (var_setncatts (ncattrs variable)),
               on_variable name (assign_all (data variable))])"

definition copy_dataset :: "nc_group \<Rightarrow> nc_group \<Rightarrow> nc_group res" where
  "copy_dataset source destination =
     steps ((\<lambda>g. ok (setncatts (attrs source) g))
            # map copy_dimension (dims source)
            @ map copy_variable (variables source)) destination"

text \<open>
  A container as the library hands it out: the names of its attributes, dimensions and
  variables are unique, and a fixed dimension has a length.
\<close>

definition readable :: "nc_group \<Rightarrow> bool" where
  "readable g \<longleftrightarrow>
     distinct (map fst (attrs g)) \<and> distinct (map fst (dims g)) \<and> distinct (map fst (variables g))
     \<and> Fixed 0 \<notin> snd ` set (dims g)
     \<and> list_all (\<lambda>(n, v). distinct (map fst (ncattrs v))) (variables g)"

section \<open>Python values the writer formats\<close>

text \<open>\<^verbatim>\<open>str(n)\<close> for an integer: decimal digits, a minus sign when negative.\<close>

definition digit_char :: "nat \<Rightarrow> char" where
  "digit_char d = char_of (48 + d)"

fun str_nat :: "nat \<Rightarrow> string" where
  "str_nat n = (if n < 10 then [digit_char n] else str_nat (n div 10) @ [digit_char (n mod 10)])"

declare str_nat.simps [simp del]

definition py_str_int :: "int \<Rightarrow> string" where
  "py_str_int i = (if i < 0 then CHR ''-'' # str_nat (nat (- i)) else str_nat (nat i))"

text \<open>
  \<^verbatim>\<open>repr(s)\<close> for a string: double quotes when the text holds a single quote and no
  double quote, single quotes otherwise; the quote in use, the backslash, newline,
  carriage return and tab are escaped. (Other control characters are outside the model.)
\<close>

definition repr_quote :: "string \<Rightarrow> char" where
  "repr_quote s = (if CHR 0x27 \<in> set s \<and> CHR 0x22 \<notin> set s then CHR 0x22 else CHR 0x27)"

definition repr_char :: "char \<Rightarrow> char \<Rightarrow> string" where
  "repr_char q c =
     (if c = CHR 0x5C then [CHR 0x5C, CHR 0x5C]
      else if c = q then [CHR 0x5C, q]
      else if c = CHR 0x0A then [CHR 0x5C, CHR ''n'']
      else if c = CHR 0x0D then [CHR 0x5C, CHR ''r'']
      else if c = CHR 0x09 then [CHR 0x5C, CHR ''t'']
      else [c])"

definition py_repr_str :: "string \<Rightarrow> string" where
  "py_repr_str s = repr_quote s # concat (map (repr_char (repr_quote s)) s) @ [repr_quote s]"

fun join :: "string \<Rightarrow> string list \<Rightarrow> string" where
  "join sep [] = []"
| "join sep [x] = x"
| "join sep (x # y # ys) = x @ sep @ join sep (y # ys)"

text \<open>
  \<^verbatim>\<open>str(d)\<close> for a dictionary and \<^verbatim>\<open>str(l)\<close> for a list, from the \<^verbatim>\<open>repr\<close> of the
  keys, values and items.
\<close>

definition py_str_dict :: "(string \<times> string) list \<Rightarrow> string" where
  "py_str_dict items = ''{'' @ join '', '' (map (\<lambda>(k, v). k @ '': '' @ v) items) @ ''}''"

definition py_str_list :: "string list \<Rightarrow> string" where
  "py_str_list items = ''['' @ join '', '' items @ '']''"

section \<open>Timestamps\<close>

text \<open>
  A second-resolution timestamp, by its calendar year and the seconds elapsed since the
  start of that year. \<^verbatim>\<open>time.dt.year\<close> is the first component;
  \<^verbatim>\<open>astype("datetime64[s]").astype(np.float64)\<close> is the number of seconds since
  1970-01-01 in the proleptic Gregorian calendar.
\<close>

datatype datetime64 = DT (dt_year: int) (dt_second: nat)

definition dt_le :: "datetime64 \<Rightarrow> datetime64 \<Rightarrow> bool" where
  "dt_le a b = (dt_year a < dt_year b \<or> (dt_year a = dt_year b \<and> dt_second a \<le> dt_second b))"

definition leap_days_upto :: "int \<Rightarrow> int" where
  "leap_days_upto y = y div 4 - y div 100 + y div 400"

definition days_before_year :: "int \<Rightarrow> int" where
  "days_before_year y = 365 * (y - 1970) + (leap_days_upto (y - 1) - leap_days_upto 1969)"

definition epoch_seconds :: "datetime64 \<Rightarrow> int" where
  "epoch_seconds t = 86400 * days_before_year (dt_year t) + int (dt_second t)"

definition as_float_seconds :: "datetime64 list \<Rightarrow> real list" where
  "as_float_seconds ts = map (\<lambda>t. real_of_int (epoch_seconds t)) ts"

text \<open>
  A conversion to a signed integer type wraps around; \<^verbatim>\<open>astype(np.byte)\<close> is the
  eight-bit case. The library converts in the same way what is assigned to a variable
  of such a type.
\<close>

definition astype_byte :: "int \<Rightarrow> int" where
  "astype_byte n = signed_take_bit 7 n"

definition cast_int :: "dtype \<Rightarrow> int \<Rightarrow> int" where
  "cast_int dt n =
     (case dt of Int8 \<Rightarrow> signed_take_bit 7 n | Int16 \<Rightarrow> signed_take_bit 15 n
      | Int32 \<Rightarrow> signed_take_bit 31 n | Int64 \<Rightarrow> signed_take_bit 63 n | _ \<Rightarrow> n)"

section \<open>Chunks\<close>

text \<open>
  A chunk is a table keyed by the particle identifier: the time coordinate, the static
  per-particle columns the writer names (\<^verbatim>\<open>p_id\<close>, \<^verbatim>\<open>release_date\<close>,
  \<^verbatim>\<open>exit_code\<close>), and every other variable (\<^verbatim>\<open>lon\<close>, \<^verbatim>\<open>lat\<close>, the 3D model's
  \<^verbatim>\<open>depth\<close>, \<^verbatim>\<open>radius\<close>, \<^verbatim>\<open>density\<close>, \<^verbatim>\<open>corey_shape_factor\<close>, and whatever
  diagnostics the producer attaches) with its dimensions, type, attributes and values.
\<close>

record xr_variable =
  xr_dims :: "string list"
  xr_dtype :: dtype
  xr_attrs :: "(string \<times> att_value) list"
  xr_values :: nc_data

record chunk =
  time :: "datetime64 list"
  p_id :: "int list"
  p_id_dtype :: dtype
  release_date :: "datetime64 list"
  exit_code :: "int list"
  exit_code_dtype :: dtype
  data_vars :: "(string \<times> xr_variable) list"

text \<open>\<^verbatim>\<open>chunk.lon\<close>, \<^verbatim>\<open>chunk[varname]\<close>: a missing name is an \<^verbatim>\<open>AttributeError\<close>.\<close>

definition get_var :: "chunk \<Rightarrow> string \<Rightarrow> xr_variable option" where
  "get_var c name = map_of (data_vars c) name"

text \<open>
  \<^verbatim>\<open>chunk.isel({"time": chunk.time.dt.year == year})\<close>: the rows of the time axis
  whose year is the given one, in order, in the time coordinate and in every variable
  that has the time dimension.
\<close>

definition select :: "bool list \<Rightarrow> 'a list \<Rightarrow> 'a list" where
  "select keep xs = map fst (filter snd (zip xs keep))"

definition isel_time :: "bool list \<Rightarrow> xr_variable \<Rightarrow> xr_variable" where
  "isel_time keep v =
     (case (xr_dims v, xr_values v) of
        ([d], D1 xs) \<Rightarrow> if d = ''time'' then v\<lparr>xr_values := D1 (select keep xs)\<rparr> else v
      | ([d0, d1], D2 rows) \<Rightarrow>
          if d1 = ''time'' then v\<lparr>xr_values := D2 (map (select keep) rows)\<rparr>
          else if d0 = ''time'' then v\<lparr>xr_values := D2 (select keep rows)\<rparr>
          else v
      | _ \<Rightarrow> v)"

definition isel_year :: "chunk \<Rightarrow> int \<Rightarrow> chunk" where
  "isel_year c year =
     (let keep = map (\<lambda>t. dt_year t = year) (time c)
      in c\<lparr>time := select keep (time c),
            data_vars := map (\<lambda>(name, v). (name, isel_time keep v)) (data_vars c)\<rparr>)"

text \<open>
  \<^verbatim>\<open>chunk.drop_dims(dims_except_p_id).variables\<close>: the variables that use no dimension
  but \<^verbatim>\<open>p_id\<close>. The three static columns are along \<^verbatim>\<open>p_id\<close> by the data model (they
  carry no attributes of their own here); the time coordinate goes with its dimension.
\<close>

definition variables_along_p_id :: "chunk \<Rightarrow> (string \<times> xr_variable) list" where
  "variables_along_p_id c =
     [(''p_id'', \<lparr>xr_dims = [''p_id''], xr_dtype = p_id_dtype c, xr_attrs = [],
                 xr_values = D1 (map real_of_int (p_id c))\<rparr>),
      (''release_date'', \<lparr>xr_dims = [''p_id''], xr_dtype = Datetime64, xr_attrs = [],
                 xr_values = D1 (as_float_seconds (release_date c))\<rparr>),
      (''exit_code'', \<lparr>xr_dims = [''p_id''], xr_dtype = exit_code_dtype c, xr_attrs = [],
                 xr_values = D1 (map real_of_int (exit_code c))\<rparr>)]
     @ filter (\<lambda>(name, v). set (xr_dims v) \<subseteq> {''p_id''}) (data_vars c)"

section \<open>Files\<close>

text \<open>
  The file system: the directories that exist and the containers stored at paths. A
  path is the list of its components; \<^verbatim>\<open>folder / name\<close> appends one.
\<close>

record fs =
  dirs :: "path set"
  files :: "path \<rightharpoonup> nc_dataset"

text \<open>\<^verbatim>\<open>out_dir.mkdir(exist_ok=True, parents=True)\<close>\<close>

definition mkdir :: "path \<Rightarrow> fs \<Rightarrow> fs" where
  "mkdir d s = s\<lparr>dirs := dirs s \<union> set (map (\<lambda>n. take n d) [0..<Suc (length d)])\<rparr>"

text \<open>\<^verbatim>\<open>netCDF4.Dataset(path, mode="w")\<close>: a new, empty container replaces what was there.\<close>

definition nc_create :: "path \<Rightarrow> fs \<Rightarrow> fs res" where
  "nc_create p s = ok (s\<lparr>files := (files s)(p \<mapsto> empty_dataset)\<rparr>)"

text \<open>
  The body of \<^verbatim>\<open>with netCDF4.Dataset(path, mode="a") as ds\<close>, or a statement on a
  container that is open: the container must exist; what the body wrote before a fault
  stays in the file.
\<close>

definition on_file :: "path \<Rightarrow> (nc_dataset \<Rightarrow> nc_dataset res) \<Rightarrow> fs \<Rightarrow> fs res" where
  "on_file p f s =
     (case files s p of
        None \<Rightarrow> raise FileNotFoundError s
      | Some ds \<Rightarrow> (case f ds of (e, ds') \<Rightarrow> (e, s\<lparr>files := (files s)(p \<mapsto> ds')\<rparr>)))"

definition on_root :: "(nc_group \<Rightarrow> nc_group res) \<Rightarrow> nc_dataset \<Rightarrow> nc_dataset res" where
  "on_root f ds = (case f (root ds) of (e, g') \<Rightarrow> (e, ds\<lparr>root := g'\<rparr>))"

text \<open>\<^verbatim>\<open>ds.createGroup(name)\<close>: the group of that name if there is one, a new one otherwise.\<close>

definition createGroup :: "string \<Rightarrow> nc_dataset \<Rightarrow> nc_dataset res" where
  "createGroup name ds =
     ok (if name \<in> fst ` set (groups ds) then ds
         else ds\<lparr>groups := groups ds @ [(name, empty_group)]\<rparr>)"

definition on_group :: "string \<Rightarrow> (nc_group \<Rightarrow> nc_group res) \<Rightarrow> nc_dataset \<Rightarrow> nc_dataset res" where
  "on_group name f ds =
     (case map_of (groups ds) name of
        None \<Rightarrow> raise KeyError ds
      | Some g \<Rightarrow> (case f g of (e, g') \<Rightarrow> (e, ds\<lparr>groups := AList.update name g' (groups ds)\<rparr>)))"

text \<open>\<^verbatim>\<open>meta.to_netcdf(path)\<close> and \<^verbatim>\<open>os.remove(path)\<close>\<close>

definition to_netcdf :: "path \<Rightarrow> nc_group \<Rightarrow> fs \<Rightarrow> fs res" where
  "to_netcdf p meta s = ok (s\<lparr>files := (files s)(p \<mapsto> \<lparr>root = meta, groups = []\<rparr>)\<rparr>)"

definition os_remove :: "path \<Rightarrow> fs \<Rightarrow> fs res" where
  "os_remove p s =
     (if p \<in> dom (files s) then ok (s\<lparr>files := (files s)(p := None)\<rparr>)
      else raise FileNotFoundError s)"

section \<open>The chunk writer\<close>

text \<open>
  What the module imports from the rest of the package: the version string
  (\<^verbatim>\<open>_version.__version__\<close>), the registry of exit codes
  (\<^verbatim>\<open>kernel_constants.EXIT_CODES\<close>, a dictionary from code to meaning, in its
  order), and the enumeration of forcings, whose members have a name and a value.
\<close>

record externals =
  version :: string
  EXIT_CODES :: "(int \<times> string) list"

datatype forcing = Forcing (forcing_name: string) (forcing_value: string)

text \<open>A forcing dataset: its global attributes, its dimensions, its coordinates, its data.\<close>

record xr_dataset =
  ds_attrs :: "(string \<times> att_value) list"
  ds_dims :: "(string \<times> nc_dimension) list"
  ds_coords :: "(string \<times> nc_variable) list"
  ds_data_vars :: "(string \<times> nc_variable) list"

datatype writer_class = OutputWriter2D | OutputWriter3D path

record writer =
  writer_class :: writer_class
  folder_path :: path
  basename :: string
  current_year :: "int option"
  paths :: "path list"
  sourcefile_path :: path
  forcing_meta :: "(forcing \<times> nc_group) list"
  api_entry :: string
  api_arguments :: "(string \<times> string) list"

definition SOURCEFILE_GROUP_NAME :: string where
  "SOURCEFILE_GROUP_NAME = ''sourcefile''"

definition CONFIGFILE_GROUP_NAME :: string where
  "CONFIGFILE_GROUP_NAME = ''configfile''"

text \<open>
  \<^verbatim>\<open>xr.Dataset(ds.coords, attrs=ds.attrs)\<close>: the coordinates, the dimensions they use
  and the global attributes; never the data.
\<close>

definition meta_of :: "xr_dataset \<Rightarrow> nc_group" where
  "meta_of ds =
     \<lparr>attrs = ds_attrs ds,
      dims = filter (\<lambda>(name, d). name \<in> set (concat (map (\<lambda>(n, v). dimensions v) (ds_coords ds))))
               (ds_dims ds),
      variables = ds_coords ds\<rparr>"

text \<open>
  \<^verbatim>\<open>OutputWriter.__init__\<close> (and \<^verbatim>\<open>OutputWriter3D.__init__\<close>, which adds the path of
  the configuration file): the output directory is made, no year is current, no path
  produced. The argument dictionary is kept by the \<^verbatim>\<open>repr\<close> of its keys and values.
\<close>

definition init :: "writer_class \<Rightarrow> path \<Rightarrow> string \<Rightarrow> path \<Rightarrow> (forcing \<times> xr_dataset) list
    \<Rightarrow> string \<Rightarrow> (string \<times> string) list \<Rightarrow> fs \<Rightarrow> writer \<times> fs" where
  "init cls out_dir base source forcing_data entry arguments s =
     (\<lparr>writer_class = cls, folder_path = out_dir, basename = base, current_year = None,
       paths = [], sourcefile_path = source,
       forcing_meta = map (\<lambda>(forcing, ds). (forcing, meta_of ds)) forcing_data,
       api_entry = entry, api_arguments = arguments\<rparr>,
      mkdir out_dir s)"

text \<open>\<^verbatim>\<open>self.folder_path / f"{self.basename}_{year}.nc"\<close>\<close>

definition year_path :: "writer \<Rightarrow> int \<Rightarrow> path" where
  "year_path w year = folder_path w @ [basename w @ ''_'' @ py_str_int year @ ''.nc'']"

definition set_current_year :: "int \<Rightarrow> writer \<Rightarrow> writer" where
  "set_current_year year w = w\<lparr>current_year := Some year, paths := paths w @ [year_path w year]\<rparr>"

subsection \<open>First-chunk initialization\<close>

definition tmp_meta_path :: "writer \<Rightarrow> forcing \<Rightarrow> path" where
  "tmp_meta_path w forcing = folder_path w @ [forcing_name forcing @ ''_meta_tmp.nc'']"

definition meta_group_description :: "forcing \<Rightarrow> string" where
  "meta_group_description forcing =
     ''This group contains the coordinates of the fully concatenated '' @ forcing_value forcing
     @ '' dataset, after it has been loaded into ADVECTOR, and global attributes ''
     @ ''from the first file in the dataset.''"

text \<open>
  One round of the loop over the forcings: the group, its description, the snapshot
  saved to a transient file, the copy from that file, the removal of the file.
\<close>

definition write_forcing_meta :: "writer \<Rightarrow> path \<Rightarrow> forcing \<times> nc_group \<Rightarrow> fs \<Rightarrow> fs res" where
  "write_forcing_meta w p fm =
     (case fm of (forcing, meta) \<Rightarrow>
        steps [on_file p (createGroup (forcing_name forcing)),
               on_file p (on_group (forcing_name forcing)
                 (\<lambda>g. ok (setncattr (forcing_name forcing @ ''_meta_group_description'')
                             (AttStr (meta_group_description forcing)) g))),
               to_netcdf (tmp_meta_path w forcing) meta,
               (\<lambda>s. case files s (tmp_meta_path w forcing) of
                       None \<Rightarrow> raise FileNotFoundError s
                     | Some netcdf4_meta \<Rightarrow>
                         on_file p (on_group (forcing_name forcing)
                                      (copy_dataset (root netcdf4_meta))) s),
               os_remove (tmp_meta_path w forcing)])"

definition arguments_text :: "writer \<Rightarrow> string" where
  "arguments_text w =
     ''The arguments of the call to '' @ api_entry w @ '' which produced this ''
     @ ''file are: '' @ py_str_dict (map (\<lambda>(k, v). (py_repr_str k, v)) (api_arguments w))"

definition exit_code_description :: string where
  "exit_code_description =
     ''These codes are returned by the kernel when unexpected behavior occurs and the''
     @ ''kernel must be terminated.  Their semantic meaning is provided in the ''
     @ [CHR 0x27] @ ''code_to_meaning'' @ [CHR 0x27] @ '' attribute of this variable.''"

text \<open>\<^verbatim>\<open>{code: meaning for code, meaning in EXIT_CODES.items() if code >= 0}\<close>\<close>

definition code_to_meaning :: "externals \<Rightarrow> (int \<times> string) list" where
  "code_to_meaning X = filter (\<lambda>(code, meaning). code \<ge> 0) (EXIT_CODES X)"

definition code_to_meaning_text :: "externals \<Rightarrow> string" where
  "code_to_meaning_text X =
     py_str_dict (map (\<lambda>(code, meaning). (py_str_int code, py_repr_str meaning)) (code_to_meaning X))"

definition seconds_units :: att_value where
  "seconds_units = AttStr ''seconds since 1970-01-01 00:00:00.0''"

text \<open>
  The trajectories in the root group: the provenance attributes, the two dimensions,
  the static variables, then the variables that grow.
\<close>

definition init_root :: "externals \<Rightarrow> writer \<Rightarrow> chunk \<Rightarrow> nc_group \<Rightarrow> nc_group res" where
  "init_root X w c =
     steps [(\<lambda>g. ok (setncattr ''institution'' (AttStr ''The Ocean Cleanup'') g)),
            (\<lambda>g. ok (setncattr ''source'' (AttStr (''ADVECTOR Version '' @ version X)) g)),
            (\<lambda>g. ok (setncattr ''arguments'' (AttStr (arguments_text w)) g)),
            createDimension ''p_id'' (Some (length (p_id c))),
            createDimension ''time'' None,
            createVariable ''p_id'' (p_id_dtype c) [''p_id''],
            on_variable ''p_id'' (assign_all (D1 (map real_of_int (p_id c)))),
            createVariable ''release_date'' Float64 [''p_id''],
            on_variable ''release_date'' (var_setncattr ''units'' seconds_units),
            on_variable ''release_date'' (var_setncattr ''calendar'' (AttStr ''gregorian'')),
            on_variable ''release_date'' (assign_all (D1 (as_float_seconds (release_date c)))),
            createVariable ''exit_code'' Int8 [''p_id''],
            on_variable ''exit_code'' (var_setncattr ''description'' (AttStr exit_code_description)),
            on_variable ''exit_code''
              (var_setncattr ''code_to_meaning'' (AttStr (code_to_meaning_text X))),
            on_variable ''exit_code''
              (assign_all (D1 (map (\<lambda>n. real_of_int (astype_byte n)) (exit_code c)))),
            createVariable ''time'' Float64 [''time''],
            on_variable ''time'' (var_setncattr ''units'' seconds_units),
            on_variable ''time'' (var_setncattr ''calendar'' (AttStr ''gregorian'')),
            on_variable ''time'' (assign_all (D1 (as_float_seconds (time c)))),
            (\<lambda>g. case get_var c ''lon'' of
                    None \<Rightarrow> raise AttributeError g
                  | Some lon \<Rightarrow>
                      steps [createVariable ''lon'' (xr_dtype lon) [''p_id'', ''time''],
                             on_variable ''lon'' (var_setncattr ''units'' (AttStr ''Degrees East'')),
                             on_variable ''lon'' (assign_all (xr_values lon))] g),
            (\<lambda>g. case get_var c ''lat'' of
                    None \<Rightarrow> raise AttributeError g
                  | Some lat \<Rightarrow>
                      steps [createVariable ''lat'' (xr_dtype lat) [''p_id'', ''time''],
                             on_variable ''lat'' (var_setncattr ''units'' (AttStr ''Degrees North'')),
                             on_variable ''lat'' (assign_all (xr_values lat))] g)]"

text \<open>
  \<^verbatim>\<open>OutputWriter._write_first_chunk\<close>: the container at the last produced path is
  created anew and stays open to the end; the source file is copied into its group,
  each forcing gets its group, the root group gets the trajectories.
\<close>

definition OutputWriter_write_first_chunk :: "externals \<Rightarrow> writer \<Rightarrow> chunk \<Rightarrow> fs \<Rightarrow> fs res" where
  "OutputWriter_write_first_chunk X w c s =
     (if paths w = [] then raise IndexError s
      else let p = last (paths w) in
        steps [nc_create p,
               on_file p (createGroup SOURCEFILE_GROUP_NAME),
               (\<lambda>s. case files s (sourcefile_path w) of
                       None \<Rightarrow> raise FileNotFoundError s
                     | Some sourcefile \<Rightarrow>
                         on_file p (on_group SOURCEFILE_GROUP_NAME (copy_dataset (root sourcefile))) s),
               steps (map (write_forcing_meta w p) (forcing_meta w)),
               on_file p (on_root (init_root X w c))] s)"

definition forcing_names_text :: "writer \<Rightarrow> string" where
  "forcing_names_text w =
     py_str_list (map (\<lambda>(forcing, meta). py_repr_str (forcing_name forcing)) (forcing_meta w))"

definition description_2D :: "writer \<Rightarrow> string" where
  "description_2D w =
     ''This file'' @ [CHR 0x27] @ ''s root group contains timeseries location data for a batch of particles run ''
     @ ''through ADVECTOR.  This file also contains several other groups: ''
     @ SOURCEFILE_GROUP_NAME @ '', which is a copy of the sourcefile passed to ADVECTOR, ''
     @ ''and a group for each forcing dataset: '' @ forcing_names_text w @ '', ''
     @ ''which each contain the dataset'' @ [CHR 0x27] @ ''s coordinates ''
     @ ''and the global attributes from the first file in the dataset.''"

definition OutputWriter2D_write_first_chunk :: "externals \<Rightarrow> writer \<Rightarrow> chunk \<Rightarrow> fs \<Rightarrow> fs res" where
  "OutputWriter2D_write_first_chunk X w c s =
     steps [OutputWriter_write_first_chunk X w c,
            (\<lambda>s. if paths w = [] then raise IndexError s
                  else on_file (last (paths w)) (on_root (\<lambda>g.
                    ok (setncattr ''description'' (AttStr (description_2D w))
                         (setncattr ''title'' (AttStr ''Trajectories of Floating Marine Debris'') g)))) s)] s"

definition description_3D :: "writer \<Rightarrow> string" where
  "description_3D w =
     ''This file'' @ [CHR 0x27] @ ''s root group contains timeseries location data for a batch of particles run ''
     @ ''through ADVECTOR.  This file also contains several other groups: ''
     @ CONFIGFILE_GROUP_NAME @ '', which is a copy of the configfile passed to ADVECTOR, ''
     @ SOURCEFILE_GROUP_NAME @ '', which is a copy of the sourcefile passed to ADVECTOR, ''
     @ ''and a group for each forcing dataset: '' @ forcing_names_text w @ '', ''
     @ ''which each contain the dataset'' @ [CHR 0x27] @ ''s coordinates ''
     @ ''and the global attributes from the first file in the dataset.''"

text \<open>
  A static variable of the 3D model: created, given its units, then assigned the
  chunk's values (the chunk is read only then).
\<close>

definition static_3D :: "chunk \<Rightarrow> string \<Rightarrow> string \<Rightarrow> nc_group \<Rightarrow> nc_group res" where
  "static_3D c name units =
     steps [createVariable name Float64 [''p_id''],
            on_variable name (var_setncattr ''units'' (AttStr units)),
            (\<lambda>g. case get_var c name of
                    None \<Rightarrow> raise AttributeError g
                  | Some v \<Rightarrow> on_variable name (assign_all (xr_values v)) g)]"

definition init_root_3D :: "writer \<Rightarrow> chunk \<Rightarrow> nc_group \<Rightarrow> nc_group res" where
  "init_root_3D w c =
     steps [(\<lambda>g. ok (setncattr ''title'' (AttStr ''Trajectories of Marine Debris'') g)),
            (\<lambda>g. ok (setncattr ''description'' (AttStr (description_3D w)) g)),
            static_3D c ''radius'' ''meters'',
            static_3D c ''density'' ''kg m^-3'',
            static_3D c ''corey_shape_factor'' ''unitless'',
            (\<lambda>g. case get_var c ''depth'' of
                    None \<Rightarrow> raise AttributeError g
                  | Some depth \<Rightarrow>
                      steps [createVariable ''depth'' (xr_dtype depth) [''p_id'', ''time''],
                             on_variable ''depth'' (var_setncattr ''units'' (AttStr ''meters'')),
                             on_variable ''depth'' (var_setncattr ''positive'' (AttStr ''up'')),
                             on_variable ''depth'' (assign_all (xr_values depth))] g)]"

definition OutputWriter3D_write_first_chunk :: "externals \<Rightarrow> writer \<Rightarrow> path \<Rightarrow> chunk \<Rightarrow> fs \<Rightarrow> fs res" where
  "OutputWriter3D_write_first_chunk X w configfile_path c s =
     steps [OutputWriter_write_first_chunk X w c,
            (\<lambda>s. if paths w = [] then raise IndexError s
                  else let p = last (paths w) in
                    steps [on_file p (createGroup ''configfile''),
                           (\<lambda>s. case files s configfile_path of
                                   None \<Rightarrow> raise FileNotFoundError s
                                 | Some configfile \<Rightarrow>
                                     on_file p (on_group ''configfile'' (copy_dataset (root configfile))) s),
                           on_file p (on_root (init_root_3D w c))] s)] s"

definition write_first_chunk :: "externals \<Rightarrow> writer \<Rightarrow> chunk \<Rightarrow> fs \<Rightarrow> fs res" where
  "write_first_chunk X w c =
     (case writer_class w of
        OutputWriter2D \<Rightarrow> OutputWriter2D_write_first_chunk X w c
      | OutputWriter3D configfile_path \<Rightarrow> OutputWriter3D_write_first_chunk X w configfile_path c)"

subsection \<open>Unexpected-variable propagation\<close>

text \<open>
  \<^verbatim>\<open>OutputWriter._copy_unexpected_variables\<close>: each variable of the chunk along
  \<^verbatim>\<open>p_id\<close> only whose name is not among the container's variables is created,
  given the chunk's attributes and values; a name that is there is passed over.
\<close>

definition copy_unexpected_variable :: "string \<times> xr_variable \<Rightarrow> nc_group \<Rightarrow> nc_group res" where
  "copy_unexpected_variable nv g =
     (case nv of (varname, v) \<Rightarrow>
        if varname \<notin> fst ` set (variables g)
        then steps [createVariable varname (xr_dtype v) [''p_id''],
                    on_variable varname (var_setncatts (xr_attrs v)),
                    on_variable varname (assign_all (xr_values v))] g
        else ok g)"

definition copy_unexpected_variables :: "writer \<Rightarrow> chunk \<Rightarrow> fs \<Rightarrow> fs res" where
  "copy_unexpected_variables w c s =
     (if paths w = [] then raise IndexError s
      else on_file (last (paths w))
             (on_root (steps (map copy_unexpected_variable (variables_along_p_id c)))) s)"

subsection \<open>Append\<close>

text \<open>\<^verbatim>\<open>len(var)\<close>: the length of the first axis.\<close>

definition len :: "nc_variable \<Rightarrow> nat" where
  "len v = (case data v of NoData \<Rightarrow> 0 | D1 xs \<Rightarrow> length xs | D2 rows \<Rightarrow> length rows)"

text \<open>
  \<^verbatim>\<open>var[start:] = values\<close> on a variable along the unlimited dimension: what lies
  before the offset stays, the values follow.
\<close>

definition assign_from :: "nat \<Rightarrow> real list \<Rightarrow> nc_variable \<Rightarrow> nc_variable res" where
  "assign_from start values v =
     (case data v of
        NoData \<Rightarrow> ok (v\<lparr>data := D1 values\<rparr>)
      | D1 xs \<Rightarrow> ok (v\<lparr>data := D1 (take start xs @ values)\<rparr>)
      | D2 rows \<Rightarrow> raise ValueError v)"

text \<open>
  \<^verbatim>\<open>var[:, start:] = values\<close> on a variable shaped particle by time: each particle's
  row keeps what lies before the offset and is continued by the row of values. The
  values must have one row per particle of the variable. (The writer's own files have
  rows as long as the time variable, so no row needs filling up to the offset.)
\<close>

definition assign_columns_from :: "nat \<Rightarrow> nc_data \<Rightarrow> nc_variable \<Rightarrow> nc_variable res" where
  "assign_columns_from start values v =
     (case (data v, values) of
        (NoData, D2 new) \<Rightarrow> ok (v\<lparr>data := D2 new\<rparr>)
      | (D2 rows, D2 new) \<Rightarrow>
          if length rows = length new
          then ok (v\<lparr>data := D2 (map (\<lambda>(row, values). take start row @ values) (zip rows new))\<rparr>)
          else raise ValueError v
      | _ \<Rightarrow> raise ValueError v)"

text \<open>
  \<^verbatim>\<open>exit_code[:] = chunk.exit_code.values\<close> on the variable that exists: one code per
  particle of the variable, converted to the variable's type.
\<close>

definition assign_codes :: "int list \<Rightarrow> nc_variable \<Rightarrow> nc_variable res" where
  "assign_codes codes v =
     (case data v of
        D2 rows \<Rightarrow> raise ValueError v
      | D1 xs \<Rightarrow>
          if length xs = length codes
          then ok (v\<lparr>data := D1 (map (\<lambda>n. real_of_int (cast_int (var_datatype v) n)) codes)\<rparr>)
          else raise ValueError v
      | NoData \<Rightarrow> ok (v\<lparr>data := D1 (map (\<lambda>n. real_of_int (cast_int (var_datatype v) n)) codes)\<rparr>))"

text \<open>
  \<^verbatim>\<open>lon = ds.variables["lon"]; lon[:, start_t:] = chunk.lon.values\<close>: the variable is
  looked up in the container first, the chunk is read next.
\<close>

definition append_columns :: "chunk \<Rightarrow> string \<Rightarrow> nat \<Rightarrow> nc_group \<Rightarrow> nc_group res" where
  "append_columns c name start_t g =
     (if name \<notin> fst ` set (variables g) then raise KeyError g
      else case get_var c name of
             None \<Rightarrow> raise AttributeError g
           | Some v \<Rightarrow> on_variable name (assign_columns_from start_t (xr_values v)) g)"

text \<open>
  \<^verbatim>\<open>OutputWriter._append_chunk\<close>: the time variable is continued from its length,
  \<^verbatim>\<open>lon\<close> and \<^verbatim>\<open>lat\<close> from the same offset; the exit codes are overwritten with the
  chunk's. No stored code is read.
\<close>

definition append_root :: "chunk \<Rightarrow> nc_group \<Rightarrow> nc_group res" where
  "append_root c g =
     (case map_of (variables g) ''time'' of
        None \<Rightarrow> raise KeyError g
      | Some time_var \<Rightarrow>
          let start_t = len time_var in
          steps [on_variable ''time'' (assign_from start_t (as_float_seconds (time c))),
                 append_columns c ''lon'' start_t,
                 append_columns c ''lat'' start_t,
                 on_variable ''exit_code'' (assign_codes (exit_code c))] g)"

definition OutputWriter_append_chunk :: "writer \<Rightarrow> chunk \<Rightarrow> fs \<Rightarrow> fs res" where
  "OutputWriter_append_chunk w c s =
     (if paths w = [] then raise IndexError s
      else on_file (last (paths w)) (on_root (append_root c)) s)"

text \<open>
  \<^verbatim>\<open>OutputWriter3D._append_chunk\<close>: the length of the time variable is read first,
  the base append runs, then the container is opened again and \<^verbatim>\<open>depth\<close> continued
  from the length read before.
\<close>

definition OutputWriter3D_append_chunk :: "writer \<Rightarrow> chunk \<Rightarrow> fs \<Rightarrow> fs res" where
  "OutputWriter3D_append_chunk w c s =
     (if paths w = [] then raise IndexError s
      else let p = last (paths w) in
        case files s p of
          None \<Rightarrow> raise FileNotFoundError s
        | Some ds \<Rightarrow>
            (case map_of (variables (root ds)) ''time'' of
               None \<Rightarrow> raise KeyError s
             | Some time_var \<Rightarrow>
                 let start_t = len time_var in
                 steps [OutputWriter_append_chunk w c,
                        on_file p (on_root (append_columns c ''depth'' start_t))] s))"

definition append_chunk :: "writer \<Rightarrow> chunk \<Rightarrow> fs \<Rightarrow> fs res" where
  "append_chunk w c =
     (case writer_class w of
        OutputWriter2D \<Rightarrow> OutputWriter_append_chunk w c
      | OutputWriter3D configfile_path \<Rightarrow> OutputWriter3D_append_chunk w c)"

subsection \<open>Chunk ingestion\<close>

text \<open>
  One round of the loop over the years: the chunk's rows of that year; a year other
  than the current one becomes current, gets its path, its container and the
  unexpected variables; the current year gets an append.
\<close>

definition write_year :: "externals \<Rightarrow> chunk \<Rightarrow> int \<Rightarrow> writer \<times> fs \<Rightarrow> (writer \<times> fs) res" where
  "write_year X c year ws =
     (case ws of (w, s) \<Rightarrow>
        let chunk_year = isel_year c year in
        if Some year \<noteq> current_year w
        then let w' = set_current_year year w in
             (case steps [write_first_chunk X w' chunk_year,
                          copy_unexpected_variables w' chunk_year] s of
                (e, s') \<Rightarrow> (e, (w', s')))
        else (case append_chunk w chunk_year s of (e, s') \<Rightarrow> (e, (w, s'))))"

text \<open>
  \<^verbatim>\<open>OutputWriter.write_output_chunk\<close>: the years from the first timestamp's to the
  last timestamp's, both included (\<^verbatim>\<open>range(beginning_year, end_year + 1)\<close>). A chunk
  with no timestamp has no first one: \<^verbatim>\<open>values[0]\<close> is an \<^verbatim>\<open>IndexError\<close>.
\<close>

definition write_output_chunk :: "externals \<Rightarrow> chunk \<Rightarrow> writer \<times> fs \<Rightarrow> (writer \<times> fs) res" where
  "write_output_chunk X c ws =
     (if time c = [] then raise IndexError ws
      else let beginning_year = dt_year (hd (time c));
               end_year = dt_year (last (time c))
           in steps (map (write_year X c) [beginning_year..end_year]) ws)"

text \<open>A run: the chunks are ingested in order, up to the first fault.\<close>

definition write_output_chunks :: "externals \<Rightarrow> chunk list \<Rightarrow> writer \<times> fs \<Rightarrow> (writer \<times> fs) res" where
  "write_output_chunks X cs = steps (map (write_output_chunk X) cs)"

section \<open>Example data\<close>

text \<open>
  A small run, used to show every statement below at work: one particle, one forcing, a
  source container with one variable, which also serves as the configuration container.
\<close>

definition demo_externals :: externals where
  "demo_externals = \<lparr>version = ''1.0'', EXIT_CODES = [(0, ''ok''), (1, ''bad''), (-1, ''fail'')]\<rparr>"

definition demo_source :: nc_dataset where
  "demo_source =
     \<lparr>root = \<lparr>attrs = [(''title'', AttStr ''src'')], dims = [(''p_id'', Fixed 1), (''t'', Unlimited)],
              variables = [(''lon'', \<lparr>var_datatype = Float64, dimensions = [''p_id''],
                                     ncattrs = [(''units'', AttStr ''deg'')], data = D1 [1]\<rparr>)]\<rparr>,
      groups = []\<rparr>"

definition demo_fs :: fs where
  "demo_fs = \<lparr>dirs = {[], [''out'']},
              files = [[''src.nc''] \<mapsto> demo_source, [''cfg.nc''] \<mapsto> demo_source]\<rparr>"

definition particle_row :: "datetime64 list \<Rightarrow> string \<Rightarrow> real \<Rightarrow> string \<times> xr_variable" where
  "particle_row ts name k =
     (name, \<lparr>xr_dims = [''p_id'', ''time''], xr_dtype = Float32, xr_attrs = [],
             xr_values = D2 [map (\<lambda>t. k * real (dt_second t)) ts]\<rparr>)"

definition particle_static :: "string \<Rightarrow> real \<Rightarrow> string \<times> xr_variable" where
  "particle_static name x =
     (name, \<lparr>xr_dims = [''p_id''], xr_dtype = Float64, xr_attrs = [], xr_values = D1 [x]\<rparr>)"

definition demo_chunk :: "datetime64 list \<Rightarrow> int \<Rightarrow> chunk" where
  "demo_chunk ts code =
     \<lparr>time = ts, p_id = [7], p_id_dtype = Int64, release_date = [DT 1999 0],
      exit_code = [code], exit_code_dtype = Int64,
      data_vars = [particle_row ts ''lon'' 1, particle_row ts ''lat'' 2, particle_row ts ''depth'' 3,
                   particle_static ''radius'' 1, particle_static ''density'' 1025,
                   particle_static ''corey_shape_factor'' 1]\<rparr>"

definition demo_meta :: nc_group where
  "demo_meta =
     \<lparr>attrs = [(''t'', AttStr ''cur'')], dims = [(''lon'', Fixed 2)],
      variables = [(''lon'', \<lparr>var_datatype = Float64, dimensions = [''lon''], ncattrs = [],
                             data = D1 [0, 1]\<rparr>)]\<rparr>"

definition demo_writer :: "writer_class \<Rightarrow> writer" where
  "demo_writer cls =
     \<lparr>writer_class = cls, folder_path = [''out''], basename = ''run'', current_year = None,
      paths = [], sourcefile_path = [''src.nc''],
      forcing_meta = [(Forcing ''current'' ''current'', demo_meta)],
      api_entry = ''run_advector'', api_arguments = [(''dt'', ''30'')]\<rparr>"

section \<open>Sequences of statements\<close>

lemma steps_append:
  "steps (fs @ gs) s =
     (case steps fs s of (None, s') \<Rightarrow> steps gs s' | (Some e, s') \<Rightarrow> (Some e, s'))"
  by (induction fs arbitrary: s) (auto split: prod.splits option.splits)

lemma steps_invariant:
  assumes "P s" and "\<And>f t. f \<in> set fs \<Longrightarrow> P t \<Longrightarrow> P (snd (f t))"
  shows "P (snd (steps fs s))"
  using assms
proof (induction fs arbitrary: s)
  case Nil
  then show ?case by simp
next
  case (Cons f fs)
  have a: "P (snd (f s))" using Cons.prems by simp
  show ?case
  proof (cases "f s")
    case (Pair e t)
    show ?thesis
    proof (cases e)
      case None
      have "P (snd (steps fs t))"
        using a Pair Cons.prems(2) by (intro Cons.IH) auto
      then show ?thesis using Pair None by simp
    next
      case (Some x)
      then show ?thesis using a Pair by simp
    qed
  qed
qed

section \<open>Association lists\<close>

lemma update_fresh: "k \<notin> fst ` set al \<Longrightarrow> AList.update k v al = al @ [(k, v)]"
  by (induction al) auto

lemma update_last: "k \<notin> fst ` set al \<Longrightarrow> AList.update k v' (al @ [(k, v)]) = al @ [(k, v')]"
  by (induction al) auto

lemma map_of_last: "k \<notin> fst ` set al \<Longrightarrow> map_of (al @ [(k, v)]) k = Some v"
  by (induction al) auto

lemma map_of_append_other: "k \<noteq> n \<Longrightarrow> map_of (al @ [(k, v)]) n = map_of al n"
  by (induction al) auto

lemma fold_update_fresh:
  "distinct (map fst (acc @ d)) \<Longrightarrow> fold (\<lambda>(k, v). AList.update k v) d acc = acc @ d"
proof (induction d arbitrary: acc)
  case Nil
  then show ?case by simp
next
  case (Cons kv d)
  obtain k v where kv: "kv = (k, v)" by (cases kv)
  have f: "k \<notin> fst ` set acc" using Cons.prems kv by auto
  have "distinct (map fst ((acc @ [(k, v)]) @ d))" using Cons.prems kv by auto
  from Cons.IH[OF this] show ?case using kv f by (simp add: update_fresh)
qed

lemma map_of_fold_update_other:
  "n \<notin> fst ` set d \<Longrightarrow> map_of (fold (\<lambda>(k, v). AList.update k v) d acc) n = map_of acc n"
  by (induction d arbitrary: acc) (auto simp: update_conv')

lemma map_of_fold_update:
  "distinct (map fst d) \<Longrightarrow> (n, a) \<in> set d \<Longrightarrow>
   map_of (fold (\<lambda>(k, v). AList.update k v) d acc) n = Some a"
proof (induction d arbitrary: acc)
  case Nil
  then show ?case by simp
next
  case (Cons kv d)
  obtain k v where kv: "kv = (k, v)" by (cases kv)
  show ?case
  proof (cases "(n, a) = (k, v)")
    case True
    then have "n \<notin> fst ` set d" using Cons.prems(1) kv by auto
    then show ?thesis using True kv by (simp add: map_of_fold_update_other update_conv')
  next
    case False
    then have "(n, a) \<in> set d" using Cons.prems(2) kv by auto
    then show ?thesis using Cons.IH Cons.prems(1) kv by simp
  qed
qed

section \<open>What a copy that returns has done\<close>

lemma copy_dimension_ok:
  assumes "copy_dimension (n, d) g = (None, g')"
  shows "n \<notin> fst ` set (dims g)"
    and "g' = g\<lparr>dims := dims g @ [(n, if d = Fixed 0 then Unlimited else d)]\<rparr>"
  using assms
  by (auto simp: copy_dimension_def createDimension_def ok_def raise_def split: if_splits nc_dimension.splits)

lemma copy_dimensions_ok:
  assumes "steps (map copy_dimension ds) g = (None, g')"
  shows "g' = g\<lparr>dims := dims g @ map (\<lambda>(n, d). (n, if d = Fixed 0 then Unlimited else d)) ds\<rparr>
         \<and> distinct (map fst ds) \<and> fst ` set ds \<inter> fst ` set (dims g) = {}"
  using assms
proof (induction ds arbitrary: g)
  case Nil
  then show ?case by simp
next
  case (Cons nd ds)
  obtain n d where nd: "nd = (n, d)" by (cases nd)
  from Cons.prems nd obtain g1 where s1: "copy_dimension (n, d) g = (None, g1)"
    and s2: "steps (map copy_dimension ds) g1 = (None, g')"
    by (auto split: prod.splits option.splits)
  note a = copy_dimension_ok[OF s1]
  from Cons.IH[OF s2] a show ?case using nd by (auto simp: image_Un)
qed

lemma on_variable_last:
  assumes "n \<notin> fst ` set vs" and "variables g = vs @ [(n, v)]" and "f v = (e, v')"
  shows "on_variable n f g = (e, g\<lparr>variables := vs @ [(n, v')]\<rparr>)"
  using assms by (simp add: on_variable_def map_of_last update_last del: map_of_append)

lemma copy_variable_fresh:
  assumes "n \<notin> fst ` set (variables g)"
  shows "copy_variable (n, v) g = (None, g\<lparr>variables := variables g @
            [(n, v\<lparr>ncattrs := fold (\<lambda>(k, a). AList.update k a) (ncattrs v) []\<rparr>)]\<rparr>)"
proof -
  let ?v0 = "\<lparr>var_datatype = var_datatype v, dimensions = dimensions v, ncattrs = [], data = NoData\<rparr>"
  let ?g1 = "g\<lparr>variables := variables g @ [(n, ?v0)]\<rparr>"
  let ?v1 = "\<lparr>var_datatype = var_datatype v, dimensions = dimensions v,
              ncattrs = fold (\<lambda>(k, a). AList.update k a) (ncattrs v) [], data = NoData\<rparr>"
  let ?g2 = "g\<lparr>variables := variables g @ [(n, ?v1)]\<rparr>"
  let ?v2 = "\<lparr>var_datatype = var_datatype v, dimensions = dimensions v,
              ncattrs = fold (\<lambda>(k, a). AList.update k a) (ncattrs v) [], data = data v\<rparr>"
  let ?g3 = "g\<lparr>variables := variables g @ [(n, ?v2)]\<rparr>"
  have c: "createVariable n (var_datatype v) (dimensions v) g = (None, ?g1)"
    using assms by (simp add: createVariable_def ok_def)
  have "var_setncatts (ncattrs v) ?v0 = (None, ?v1)"
    by (simp add: var_setncatts_def ok_def)
  then have a: "on_variable n (var_setncatts (ncattrs v)) ?g1 = (None, ?g2)"
    using on_variable_last[where n = n and vs = "variables g" and g = ?g1 and v = ?v0
        and f = "var_setncatts (ncattrs v)" and e = None and v' = ?v1] assms by simp
  have "assign_all (data v) ?v1 = (None, ?v2)"
    by (simp add: assign_all_def ok_def)
  then have b: "on_variable n (assign_all (data v)) ?g2 = (None, ?g3)"
    using on_variable_last[where n = n and vs = "variables g" and g = ?g2 and v = ?v1
        and f = "assign_all (data v)" and e = None and v' = ?v2] assms by simp
  have "?v2 = v\<lparr>ncattrs := fold (\<lambda>(k, a). AList.update k a) (ncattrs v) []\<rparr>" by simp
  then show ?thesis
    unfolding copy_variable_def by (simp add: c a b)
qed

lemma copy_variable_ok:
  assumes "copy_variable (n, v) g = (None, g')"
  shows "n \<notin> fst ` set (variables g)"
    and "g' = g\<lparr>variables := variables g @
            [(n, v\<lparr>ncattrs := fold (\<lambda>(k, a). AList.update k a) (ncattrs v) []\<rparr>)]\<rparr>"
proof -
  show f: "n \<notin> fst ` set (variables g)"
    using assms by (auto simp: copy_variable_def createVariable_def ok_def raise_def split: if_splits)
  from copy_variable_fresh[OF f, of v] assms
  show "g' = g\<lparr>variables := variables g @
            [(n, v\<lparr>ncattrs := fold (\<lambda>(k, a). AList.update k a) (ncattrs v) []\<rparr>)]\<rparr>"
    by simp
qed

lemma copy_variables_ok:
  assumes "steps (map copy_variable vs) g = (None, g')"
  shows "g' = g\<lparr>variables := variables g @
            map (\<lambda>(n, v). (n, v\<lparr>ncattrs := fold (\<lambda>(k, a). AList.update k a) (ncattrs v) []\<rparr>)) vs\<rparr>
         \<and> distinct (map fst vs) \<and> fst ` set vs \<inter> fst ` set (variables g) = {}"
  using assms
proof (induction vs arbitrary: g)
  case Nil
  then show ?case by simp
next
  case (Cons nv vs)
  obtain n v where nv: "nv = (n, v)" by (cases nv)
  from Cons.prems nv obtain g1 where s1: "copy_variable (n, v) g = (None, g1)"
    and s2: "steps (map copy_variable vs) g1 = (None, g')"
    by (auto split: prod.splits option.splits)
  note a = copy_variable_ok[OF s1]
  from Cons.IH[OF s2] a show ?case using nv by (auto simp: image_Un)
qed

lemma copy_dataset_ok:
  assumes "copy_dataset source destination = (None, d')"
  shows "d' = \<lparr>attrs = fold (\<lambda>(k, v). AList.update k v) (attrs source) (attrs destination),
               dims = dims destination @ map (\<lambda>(n, d). (n, if d = Fixed 0 then Unlimited else d)) (dims source),
               variables = variables destination @
                 map (\<lambda>(n, v). (n, v\<lparr>ncattrs := fold (\<lambda>(k, a). AList.update k a) (ncattrs v) []\<rparr>)) (variables source)\<rparr>"
    and "distinct (map fst (dims source))" "fst ` set (dims source) \<inter> fst ` set (dims destination) = {}"
    and "distinct (map fst (variables source))" "fst ` set (variables source) \<inter> fst ` set (variables destination) = {}"
proof -
  let ?g0 = "setncatts (attrs source) destination"
  from assms obtain g1 where s1: "steps (map copy_dimension (dims source)) ?g0 = (None, g1)"
    and s2: "steps (map copy_variable (variables source)) g1 = (None, d')"
    by (auto simp: copy_dataset_def ok_def steps_append split: prod.splits option.splits)
  note a = copy_dimensions_ok[OF s1] and b = copy_variables_ok[OF s2]
  show "d' = \<lparr>attrs = fold (\<lambda>(k, v). AList.update k v) (attrs source) (attrs destination),
               dims = dims destination @ map (\<lambda>(n, d). (n, if d = Fixed 0 then Unlimited else d)) (dims source),
               variables = variables destination @
                 map (\<lambda>(n, v). (n, v\<lparr>ncattrs := fold (\<lambda>(k, a). AList.update k a) (ncattrs v) []\<rparr>)) (variables source)\<rparr>"
    using a b by (simp add: setncatts_def)
  show "distinct (map fst (dims source))" using a by simp
  show "fst ` set (dims source) \<inter> fst ` set (dims destination) = {}" using a by (simp add: setncatts_def)
  show "distinct (map fst (variables source))" using b by simp
  show "fst ` set (variables source) \<inter> fst ` set (variables destination) = {}" using a b by (simp add: setncatts_def)
qed

section \<open>When a copy returns\<close>

lemma copy_dimensions_fresh:
  assumes "distinct (map fst ds)" and "fst ` set ds \<inter> fst ` set (dims g) = {}"
  shows "fst (steps (map copy_dimension ds) g) = None"
  using assms
proof (induction ds arbitrary: g)
  case Nil
  then show ?case by simp
next
  case (Cons nd ds)
  obtain n d where nd: "nd = (n, d)" by (cases nd)
  let ?g1 = "g\<lparr>dims := dims g @ [(n, if d = Fixed 0 then Unlimited else d)]\<rparr>"
  have f: "n \<notin> fst ` set (dims g)" using Cons.prems(2) nd by auto
  then have c: "copy_dimension (n, d) g = (None, ?g1)"
    by (auto simp: copy_dimension_def createDimension_def ok_def split: nc_dimension.splits)
  have "fst (steps (map copy_dimension ds) ?g1) = None"
    using Cons.prems nd by (intro Cons.IH) auto
  then show ?case using nd c by simp
qed

lemma copy_variables_fresh:
  assumes "distinct (map fst vs)" and "fst ` set vs \<inter> fst ` set (variables g) = {}"
  shows "fst (steps (map copy_variable vs) g) = None"
  using assms
proof (induction vs arbitrary: g)
  case Nil
  then show ?case by simp
next
  case (Cons nv vs)
  obtain n v where nv: "nv = (n, v)" by (cases nv)
  let ?g1 = "g\<lparr>variables := variables g @
            [(n, v\<lparr>ncattrs := fold (\<lambda>(k, a). AList.update k a) (ncattrs v) []\<rparr>)]\<rparr>"
  have f: "n \<notin> fst ` set (variables g)" using Cons.prems(2) nv by auto
  note c = copy_variable_fresh[OF f, of v]
  have "fst (steps (map copy_variable vs) ?g1) = None"
    using Cons.prems nv by (intro Cons.IH) auto
  then show ?case using nv c by simp
qed

lemma copy_dataset_fresh:
  assumes "distinct (map fst (dims source))" and "fst ` set (dims source) \<inter> fst ` set (dims destination) = {}"
    and "distinct (map fst (variables source))"
    and "fst ` set (variables source) \<inter> fst ` set (variables destination) = {}"
  shows "fst (copy_dataset source destination) = None"
proof -
  let ?g0 = "setncatts (attrs source) destination"
  have "fst (steps (map copy_dimension (dims source)) ?g0) = None"
    using assms(1,2) by (intro copy_dimensions_fresh) (simp_all add: setncatts_def)
  then obtain g1 where s1: "steps (map copy_dimension (dims source)) ?g0 = (None, g1)"
    by (cases "steps (map copy_dimension (dims source)) ?g0") simp
  have "variables g1 = variables destination"
    using copy_dimensions_ok[OF s1] by (simp add: setncatts_def)
  then have "fst (steps (map copy_variable (variables source)) g1) = None"
    using assms(3,4) by (intro copy_variables_fresh) simp_all
  then show ?thesis
    unfolding copy_dataset_def using s1 by (simp add: steps_append ok_def)
qed

lemma copy_dataset_faults_NameInUse:
  "fst (copy_dataset source destination) = None \<or> fst (copy_dataset source destination) = Some NameInUse"
proof -
  have step: "fst (steps fs g) = None \<or> fst (steps fs g) = Some NameInUse"
    if "\<And>f t. f \<in> set fs \<Longrightarrow> fst (f t) = None \<or> fst (f t) = Some NameInUse" for fs and g :: nc_group
    using that
  proof (induction fs arbitrary: g)
    case Nil
    then show ?case by simp
  next
    case (Cons f fs)
    have "fst (f g) = None \<or> fst (f g) = Some NameInUse" using Cons.prems by simp
    moreover have "fst (steps fs t) = None \<or> fst (steps fs t) = Some NameInUse" for t
      using Cons.prems by (intro Cons.IH) simp
    ultimately show ?case by (cases "f g") (auto split: option.splits)
  qed
  have dim: "fst (copy_dimension nd t) = None \<or> fst (copy_dimension nd t) = Some NameInUse" for nd t
    by (cases nd) (simp add: copy_dimension_def createDimension_def ok_def raise_def)
  have var: "fst (copy_variable nv t) = None \<or> fst (copy_variable nv t) = Some NameInUse" for nv t
  proof (cases nv)
    case (Pair n v)
    show ?thesis
    proof (cases "n \<in> fst ` set (variables t)")
      case True
      then show ?thesis using Pair by (simp add: copy_variable_def createVariable_def raise_def)
    next
      case False
      from copy_variable_fresh[OF this, of v] show ?thesis using Pair by simp
    qed
  qed
  show ?thesis
    unfolding copy_dataset_def
  proof (rule step)
    fix f and t :: nc_group
    assume "f \<in> set ((\<lambda>g. ok (setncatts (attrs source) g)) # map copy_dimension (dims source)
                      @ map copy_variable (variables source))"
    then consider "f = (\<lambda>g. ok (setncatts (attrs source) g))"
      | nd where "f = copy_dimension nd" | nv where "f = copy_variable nv"
      by auto
    then show "fst (f t) = None \<or> fst (f t) = Some NameInUse"
    proof cases
      case 1
      then show ?thesis by (simp add: ok_def)
    next
      case 2
      then show ?thesis using dim by simp
    next
      case 3
      then show ?thesis using var by simp
    qed
  qed
qed

lemma copy_readable:
  assumes "readable source"
    and "fst ` set (dims source) \<inter> fst ` set (dims destination) = {}"
    and "fst ` set (variables source) \<inter> fst ` set (variables destination) = {}"
  shows "copy_dataset source destination =
           (None, \<lparr>attrs = fold (\<lambda>(k, v). AList.update k v) (attrs source) (attrs destination),
                   dims = dims destination @ dims source,
                   variables = variables destination @ variables source\<rparr>)"
proof -
  have "fst (copy_dataset source destination) = None"
    using assms by (intro copy_dataset_fresh) (simp_all add: readable_def)
  then obtain d' where c: "copy_dataset source destination = (None, d')"
    by (cases "copy_dataset source destination") simp
  have d: "map (\<lambda>(n, d). (n, if d = Fixed 0 then Unlimited else d)) (dims source) = dims source"
    using assms(1) by (intro map_idI) (auto simp: readable_def image_iff)
  have v: "map (\<lambda>(n, v). (n, v\<lparr>ncattrs := fold (\<lambda>(k, a). AList.update k a) (ncattrs v) []\<rparr>)) (variables source)
            = variables source"
  proof (intro map_idI)
    fix nv assume m: "nv \<in> set (variables source)"
    obtain n v where nv: "nv = (n, v)" by (cases nv)
    have "distinct (map fst (ncattrs v))"
      using assms(1) m nv by (auto simp: readable_def list_all_iff)
    then have "fold (\<lambda>(k, a). AList.update k a) (ncattrs v) [] = ncattrs v"
      using fold_update_fresh[of "[]" "ncattrs v"] by simp
    then show "(case nv of (n, v) \<Rightarrow> (n, v\<lparr>ncattrs := fold (\<lambda>(k, a). AList.update k a) (ncattrs v) []\<rparr>)) = nv"
      using nv by simp
  qed
  from copy_dataset_ok(1)[OF c] c show ?thesis by (simp add: d v)
qed

lemma copy_readable_into_empty:
  assumes "readable source"
  shows "copy_dataset source empty_group = (None, source)"
proof -
  have "fold (\<lambda>(k, v). AList.update k v) (attrs source) [] = attrs source"
    using assms fold_update_fresh[of "[]" "attrs source"] by (simp add: readable_def)
  then show ?thesis
    using copy_readable[OF assms, of empty_group] by (simp add: empty_group_def)
qed

section \<open>Digits and paths\<close>

lemma str_nat_not_Nil: "str_nat n \<noteq> []"
  by (subst str_nat.simps) simp

lemma last_str_nat: "last (str_nat n) = digit_char (n mod 10)"
  by (subst str_nat.simps) simp

lemma mod_256_digit: "d < 10 \<Longrightarrow> (48 + d) mod 256 = 48 + (d::nat)"
  by simp

lemma of_char_digit_char: "d < 10 \<Longrightarrow> of_char (digit_char d) = 48 + d"
  unfolding digit_char_def of_char_of using mod_256_digit by blast

lemma digit_char_inj:
  assumes "a < 10" and "b < 10" and "digit_char a = digit_char b"
  shows "a = b"
proof -
  have "(of_char (digit_char a) :: nat) = of_char (digit_char b)" using assms(3) by (rule arg_cong)
  then have "48 + a = 48 + b"
    by (simp only: of_char_digit_char[OF assms(1)] of_char_digit_char[OF assms(2)])
  then show ?thesis by (rule add_left_imp_eq)
qed

lemma of_char_p: "(of_char (CHR ''p'') :: nat) = 112"
  by code_simp

lemma of_char_minus: "(of_char (CHR ''-'') :: nat) = 45"
  by code_simp

lemma digit_char_not_p: "d < 10 \<Longrightarrow> digit_char d \<noteq> CHR ''p''"
proof
  assume d: "d < 10" and e: "digit_char d = CHR ''p''"
  have "(of_char (CHR ''p'') :: nat) = 48 + d"
    unfolding e[symmetric] by (rule of_char_digit_char[OF d])
  then have "(112::nat) = 48 + d" by (simp only: of_char_p)
  with d show False by linarith
qed

lemma digit_char_not_minus: "d < 10 \<Longrightarrow> digit_char d \<noteq> CHR ''-''"
proof
  assume d: "d < 10" and e: "digit_char d = CHR ''-''"
  have "(of_char (CHR ''-'') :: nat) = 48 + d"
    unfolding e[symmetric] by (rule of_char_digit_char[OF d])
  then have "(45::nat) = 48 + d" by (simp only: of_char_minus)
  with d show False by linarith
qed

lemma length_str_nat_small: "n < 10 \<Longrightarrow> length (str_nat n) = 1"
  by (subst str_nat.simps) simp

lemma length_str_nat_large: "\<not> n < 10 \<Longrightarrow> length (str_nat n) \<ge> 2"
  using str_nat_not_Nil[of "n div 10"]
  by (subst str_nat.simps) (cases "str_nat (n div 10)"; simp)

lemma str_nat_inj: "str_nat a = str_nat b \<Longrightarrow> a = b"
proof (induction a arbitrary: b rule: str_nat.induct)
  case (1 n)
  show ?case
  proof (cases "n < 10")
    case True
    show ?thesis
    proof (cases "b < 10")
      case b: True
      have "[digit_char n] = [digit_char b]"
        using 1(2) True b by (subst (asm) str_nat.simps, subst (asm) (2) str_nat.simps) simp
      then show ?thesis using digit_char_inj[OF True b] by simp
    next
      case False
      then show ?thesis
        using length_str_nat_small[OF True] length_str_nat_large[OF False] 1(2) by simp
    qed
  next
    case False
    show ?thesis
    proof (cases "b < 10")
      case True
      then show ?thesis
        using length_str_nat_small[OF True] length_str_nat_large[OF False] 1(2) by simp
    next
      case b: False
      from False b 1(2)
      have "str_nat (n div 10) @ [digit_char (n mod 10)] = str_nat (b div 10) @ [digit_char (b mod 10)]"
        by (subst (asm) str_nat.simps, subst (asm) (2) str_nat.simps) simp
      then have e1: "str_nat (n div 10) = str_nat (b div 10)"
        and e2: "digit_char (n mod 10) = digit_char (b mod 10)"
        by simp_all
      from 1(1)[OF False e1] have "n div 10 = b div 10" .
      moreover from e2 have "n mod 10 = b mod 10" by (intro digit_char_inj) simp_all
      ultimately show ?thesis by (metis div_mult_mod_eq)
    qed
  qed
qed

lemma hd_str_nat_not_minus: "hd (str_nat n) \<noteq> CHR ''-''"
proof (induction n rule: str_nat.induct)
  case (1 n)
  show ?case
  proof (cases "n < 10")
    case True
    then show ?thesis using digit_char_not_minus[of n] by (subst str_nat.simps) simp
  next
    case False
    then show ?thesis using 1 str_nat_not_Nil[of "n div 10"] by (subst str_nat.simps) simp
  qed
qed

lemma py_str_int_inj: "py_str_int a = py_str_int b \<Longrightarrow> a = b"
proof -
  assume e: "py_str_int a = py_str_int b"
  have neg: "False" if "x < 0" "\<not> y < 0" "py_str_int x = py_str_int y" for x y
  proof -
    from that have "CHR ''-'' # str_nat (nat (- x)) = str_nat (nat y)" by (simp add: py_str_int_def)
    then have "hd (str_nat (nat y)) = CHR ''-''" by (metis list.sel(1))
    then show False using hd_str_nat_not_minus by blast
  qed
  show ?thesis
  proof (cases "a < 0")
    case True
    show ?thesis
    proof (cases "b < 0")
      case b: True
      from e True b have "str_nat (nat (- a)) = str_nat (nat (- b))" by (simp add: py_str_int_def)
      then have "nat (- a) = nat (- b)" by (rule str_nat_inj)
      then show ?thesis using True b by simp
    next
      case False
      then show ?thesis using neg[OF True False e] by simp
    qed
  next
    case False
    show ?thesis
    proof (cases "b < 0")
      case True
      then show ?thesis using neg[OF True False e[symmetric]] by simp
    next
      case b: False
      from e False b have "str_nat (nat a) = str_nat (nat b)" by (simp add: py_str_int_def)
      then have "nat a = nat b" by (rule str_nat_inj)
      then show ?thesis using False b by simp
    qed
  qed
qed

lemma last_py_str_int: "py_str_int y \<noteq> [] \<and> last (py_str_int y) \<noteq> CHR ''p''"
proof -
  have "last (str_nat n) \<noteq> CHR ''p''" for n
    using digit_char_not_p[of "n mod 10"] by (simp add: last_str_nat)
  then show ?thesis by (simp add: py_str_int_def str_nat_not_Nil)
qed

lemma year_path_inj: "year_path w a = year_path w b \<Longrightarrow> a = b"
  by (auto simp: year_path_def dest: py_str_int_inj)

lemma year_path_not_tmp: "year_path w y \<noteq> tmp_meta_path w f"
proof
  assume "year_path w y = tmp_meta_path w f"
  then have "(basename w @ ''_'' @ py_str_int y) @ ''.nc'' = (forcing_name f @ ''_meta_tmp'') @ ''.nc''"
    by (simp add: year_path_def tmp_meta_path_def)
  then have "basename w @ ''_'' @ py_str_int y = forcing_name f @ ''_meta_tmp''"
    by (simp only: append_same_eq)
  then have "last (basename w @ ''_'' @ py_str_int y) = last (forcing_name f @ ''_meta_tmp'')" by simp
  then have "last (py_str_int y) = CHR ''p''"
    using last_py_str_int[of y] by simp
  then show False using last_py_str_int[of y] by simp
qed

section \<open>The root group after first-chunk initialization\<close>

lemmas group_defs = ok_def raise_def setncattr_def createDimension_def createVariable_def
  on_variable_def var_setncattr_def assign_all_def

lemma init_root_empty:
  assumes "get_var c ''lon'' = Some lon" and "get_var c ''lat'' = Some lat"
  shows "init_root X w c empty_group =
    (None,
     \<lparr>attrs = [(''institution'', AttStr ''The Ocean Cleanup''),
               (''source'', AttStr (''ADVECTOR Version '' @ version X)),
               (''arguments'', AttStr (arguments_text w))],
      dims = [(''p_id'', if length (p_id c) = 0 then Unlimited else Fixed (length (p_id c))),
              (''time'', Unlimited)],
      variables =
        [(''p_id'', \<lparr>var_datatype = p_id_dtype c, dimensions = [''p_id''], ncattrs = [],
                     data = D1 (map real_of_int (p_id c))\<rparr>),
         (''release_date'', \<lparr>var_datatype = Float64, dimensions = [''p_id''],
                     ncattrs = [(''units'', seconds_units), (''calendar'', AttStr ''gregorian'')],
                     data = D1 (as_float_seconds (release_date c))\<rparr>),
         (''exit_code'', \<lparr>var_datatype = Int8, dimensions = [''p_id''],
                     ncattrs = [(''description'', AttStr exit_code_description),
                                (''code_to_meaning'', AttStr (code_to_meaning_text X))],
                     data = D1 (map (\<lambda>n. real_of_int (astype_byte n)) (exit_code c))\<rparr>),
         (''time'', \<lparr>var_datatype = Float64, dimensions = [''time''],
                     ncattrs = [(''units'', seconds_units), (''calendar'', AttStr ''gregorian'')],
                     data = D1 (as_float_seconds (time c))\<rparr>),
         (''lon'', \<lparr>var_datatype = xr_dtype lon, dimensions = [''p_id'', ''time''],
                     ncattrs = [(''units'', AttStr ''Degrees East'')], data = xr_values lon\<rparr>),
         (''lat'', \<lparr>var_datatype = xr_dtype lat, dimensions = [''p_id'', ''time''],
                     ncattrs = [(''units'', AttStr ''Degrees North'')], data = xr_values lat\<rparr>)]\<rparr>)"
  using assms by (simp add: init_root_def empty_group_def group_defs)

lemma init_root_empty_fault:
  assumes "get_var c ''lon'' = None \<or> get_var c ''lat'' = None"
  shows "fst (init_root X w c empty_group) = Some AttributeError"
  using assms by (auto simp add: init_root_def empty_group_def group_defs split: option.splits)

section \<open>Groups and files\<close>

lemma createGroup_facts:
  "fst (createGroup n ds) = None"
  "root (snd (createGroup n ds)) = root ds"
  "map_of (groups (snd (createGroup n ds))) n = Some (case map_of (groups ds) n of None \<Rightarrow> empty_group | Some g \<Rightarrow> g)"
  "m \<noteq> n \<Longrightarrow> map_of (groups (snd (createGroup n ds))) m = map_of (groups ds) m"
proof -
  show "fst (createGroup n ds) = None" by (simp add: createGroup_def ok_def)
  show "root (snd (createGroup n ds)) = root ds" by (simp add: createGroup_def ok_def)
  show "map_of (groups (snd (createGroup n ds))) n = Some (case map_of (groups ds) n of None \<Rightarrow> empty_group | Some g \<Rightarrow> g)"
  proof (cases "n \<in> fst ` set (groups ds)")
    case True
    then obtain g where "map_of (groups ds) n = Some g"
      by (metis domD dom_map_of_conv_image_fst)
    then show ?thesis using True by (simp add: createGroup_def ok_def)
  next
    case False
    then have "map_of (groups ds) n = None" by (simp add: map_of_eq_None_iff)
    then show ?thesis using False by (simp add: createGroup_def ok_def map_of_last del: map_of_append)
  qed
  show "m \<noteq> n \<Longrightarrow> map_of (groups (snd (createGroup n ds))) m = map_of (groups ds) m"
    by (simp add: createGroup_def ok_def map_of_append_other del: map_of_append)
qed

lemma on_group_Some:
  assumes "map_of (groups ds) n = Some g"
  shows "on_group n f ds = (fst (f g), ds\<lparr>groups := AList.update n (snd (f g)) (groups ds)\<rparr>)"
  using assms by (simp add: on_group_def split: prod.splits)

lemma on_file_Some:
  assumes "files s p = Some ds"
  shows "on_file p f s = (fst (f ds), s\<lparr>files := (files s)(p \<mapsto> snd (f ds))\<rparr>)"
  using assms by (simp add: on_file_def split: prod.splits)

text \<open>One round of the forcing loop, on a container that is there.\<close>

lemma write_forcing_meta_round:
  assumes p: "files s p = Some ds" and t: "tmp_meta_path w f \<noteq> p"
    and r: "write_forcing_meta w p (f, meta) s = (e, s')"
  shows "\<exists>ds'. files s' p = Some ds' \<and> root ds' = root ds
           \<and> (\<forall>n. n \<noteq> forcing_name f \<longrightarrow> map_of (groups ds') n = map_of (groups ds) n)"
    and "\<And>q. q \<noteq> p \<Longrightarrow> q \<noteq> tmp_meta_path w f \<Longrightarrow> files s' q = files s q"
    and "e = None \<Longrightarrow> files s' (tmp_meta_path w f) = None"
    and "e \<noteq> None \<Longrightarrow> files s' (tmp_meta_path w f) = Some \<lparr>root = meta, groups = []\<rparr>"
    and "e = fst (copy_dataset meta
            (setncattr (forcing_name f @ ''_meta_group_description'') (AttStr (meta_group_description f))
               (case map_of (groups ds) (forcing_name f) of None \<Rightarrow> empty_group | Some g \<Rightarrow> g)))"
proof -
  let ?n = "forcing_name f"
  let ?t = "tmp_meta_path w f"
  let ?dsA = "snd (createGroup ?n ds)"
  let ?g0 = "case map_of (groups ds) ?n of None \<Rightarrow> empty_group | Some g \<Rightarrow> g"
  let ?g1 = "setncattr (?n @ ''_meta_group_description'') (AttStr (meta_group_description f)) ?g0"
  let ?dsB = "?dsA\<lparr>groups := AList.update ?n ?g1 (groups ?dsA)\<rparr>"
  let ?c = "copy_dataset meta ?g1"
  let ?dsD = "?dsB\<lparr>groups := AList.update ?n (snd ?c) (groups ?dsB)\<rparr>"
  let ?sA = "s\<lparr>files := (files s)(p \<mapsto> ?dsA)\<rparr>"
  let ?sB = "?sA\<lparr>files := (files ?sA)(p \<mapsto> ?dsB)\<rparr>"
  let ?sC = "?sB\<lparr>files := (files ?sB)(?t \<mapsto> \<lparr>root = meta, groups = []\<rparr>)\<rparr>"
  let ?sD = "?sC\<lparr>files := (files ?sC)(p \<mapsto> ?dsD)\<rparr>"
  let ?sE = "?sD\<lparr>files := (files ?sD)(?t := None)\<rparr>"
  have A: "on_file p (createGroup ?n) s = (None, ?sA)"
    using on_file_Some[OF p, of "createGroup ?n"] by (simp add: createGroup_facts)
  have gA: "map_of (groups ?dsA) ?n = Some ?g0" by (rule createGroup_facts)
  have B: "on_file p (on_group ?n (\<lambda>g. ok (setncattr (?n @ ''_meta_group_description'')
                             (AttStr (meta_group_description f)) g))) ?sA = (None, ?sB)"
    using on_file_Some[of ?sA p ?dsA] on_group_Some[OF gA] by (simp add: ok_def)
  have C: "to_netcdf ?t meta ?sB = (None, ?sC)" by (simp add: to_netcdf_def ok_def)
  have gB: "map_of (groups ?dsB) ?n = Some ?g1" by (simp add: update_conv')
  have fC: "files ?sC ?t = Some \<lparr>root = meta, groups = []\<rparr>" by simp
  have pC: "files ?sC p = Some ?dsB" using t by simp
  have D: "on_file p (on_group ?n (copy_dataset (root \<lparr>root = meta, groups = []\<rparr>))) ?sC = (fst ?c, ?sD)"
    using on_file_Some[OF pC] on_group_Some[OF gB] by simp
  have E: "os_remove ?t ?sD = (None, ?sE)" using t by (simp add: os_remove_def ok_def)
  have res: "(e, s') = (if fst ?c = None then (None, ?sE) else (fst ?c, ?sD))"
  proof (cases "fst ?c")
    case None
    have "write_forcing_meta w p (f, meta) s = (None, ?sE)"
      unfolding write_forcing_meta_def
      by (simp only: prod.case steps.simps A B C fC option.case D E None)
    then show ?thesis using r None by simp
  next
    case (Some x)
    have "write_forcing_meta w p (f, meta) s = (Some x, ?sD)"
      unfolding write_forcing_meta_def
      by (simp only: prod.case steps.simps A B C fC option.case D Some)
    then show ?thesis using r Some by simp
  qed
  show "\<exists>ds'. files s' p = Some ds' \<and> root ds' = root ds
           \<and> (\<forall>n. n \<noteq> forcing_name f \<longrightarrow> map_of (groups ds') n = map_of (groups ds) n)"
    using res t by (auto simp: createGroup_facts update_conv' split: if_splits)
  show "\<And>q. q \<noteq> p \<Longrightarrow> q \<noteq> tmp_meta_path w f \<Longrightarrow> files s' q = files s q"
    using res by (auto split: if_splits)
  show "e = None \<Longrightarrow> files s' (tmp_meta_path w f) = None"
    using res by (auto split: if_splits)
  show "e \<noteq> None \<Longrightarrow> files s' (tmp_meta_path w f) = Some \<lparr>root = meta, groups = []\<rparr>"
    using res t by (auto split: if_splits)
  show "e = fst ?c" using res by (auto split: if_splits)
qed

lemma forcing_loop:
  assumes "steps (map (write_forcing_meta w p) fms) s = (e, s')"
    and "files s p = Some ds"
    and "\<forall>(f, m) \<in> set fms. tmp_meta_path w f \<noteq> p"
  shows "(\<exists>ds'. files s' p = Some ds' \<and> root ds' = root ds
           \<and> (\<forall>n. n \<notin> forcing_name ` fst ` set fms \<longrightarrow> map_of (groups ds') n = map_of (groups ds) n))
       \<and> (\<forall>q. q \<noteq> p \<longrightarrow> q \<notin> tmp_meta_path w ` fst ` set fms \<longrightarrow> files s' q = files s q)
       \<and> (e = None \<longrightarrow> (\<forall>(f, m) \<in> set fms. files s' (tmp_meta_path w f) = None))
       \<and> (e \<noteq> None \<longrightarrow> (\<exists>(f, m) \<in> set fms. files s' (tmp_meta_path w f) = Some \<lparr>root = m, groups = []\<rparr>))"
  using assms
proof (induction fms arbitrary: s ds)
  case Nil
  then show ?case by simp
next
  case (Cons fm fms)
  obtain f m where fm: "fm = (f, m)" by (cases fm)
  obtain e1 s1 where r1: "write_forcing_meta w p (f, m) s = (e1, s1)" by (cases "write_forcing_meta w p (f, m) s")
  have t: "tmp_meta_path w f \<noteq> p" using Cons.prems(3) fm by simp
  note R = write_forcing_meta_round[OF Cons.prems(2) t r1]
  from R(1) obtain ds1 where d1: "files s1 p = Some ds1" "root ds1 = root ds"
    "\<forall>n. n \<noteq> forcing_name f \<longrightarrow> map_of (groups ds1) n = map_of (groups ds) n" by blast
  show ?case
  proof (cases e1)
    case None
    then have r2: "steps (map (write_forcing_meta w p) fms) s1 = (e, s')"
      using Cons.prems(1) fm r1 by simp
    have t2: "\<forall>(f, m) \<in> set fms. tmp_meta_path w f \<noteq> p" using Cons.prems(3) by simp
    note IH = Cons.IH[OF r2 d1(1) t2]
    from IH obtain ds' where d': "files s' p = Some ds'" "root ds' = root ds1"
      "\<forall>n. n \<notin> forcing_name ` fst ` set fms \<longrightarrow> map_of (groups ds') n = map_of (groups ds1) n" by blast
    have a: "\<exists>ds'. files s' p = Some ds' \<and> root ds' = root ds
           \<and> (\<forall>n. n \<notin> forcing_name ` fst ` set (fm # fms) \<longrightarrow> map_of (groups ds') n = map_of (groups ds) n)"
      using d' d1 fm by auto
    have b: "\<forall>q. q \<noteq> p \<longrightarrow> q \<notin> tmp_meta_path w ` fst ` set (fm # fms) \<longrightarrow> files s' q = files s q"
      using IH R(2) fm by auto
    have c: "e = None \<longrightarrow> (\<forall>(f, m) \<in> set (fm # fms). files s' (tmp_meta_path w f) = None)"
    proof
      assume e: "e = None"
      have "files s' (tmp_meta_path w f) = None"
      proof (cases "tmp_meta_path w f \<in> tmp_meta_path w ` fst ` set fms")
        case True
        then show ?thesis using IH e by force
      next
        case False
        then have "files s' (tmp_meta_path w f) = files s1 (tmp_meta_path w f)" using IH t by blast
        then show ?thesis using R(3) None by simp
      qed
      then show "\<forall>(f, m) \<in> set (fm # fms). files s' (tmp_meta_path w f) = None"
        using IH e fm by auto
    qed
    have d: "e \<noteq> None \<longrightarrow> (\<exists>(f, m) \<in> set (fm # fms). files s' (tmp_meta_path w f) = Some \<lparr>root = m, groups = []\<rparr>)"
      using IH by auto
    from a b c d show ?thesis by blast
  next
    case (Some x)
    then have es: "e = Some x" "s' = s1" using Cons.prems(1) fm r1 by simp_all
    have a: "\<exists>ds'. files s' p = Some ds' \<and> root ds' = root ds
           \<and> (\<forall>n. n \<notin> forcing_name ` fst ` set (fm # fms) \<longrightarrow> map_of (groups ds') n = map_of (groups ds) n)"
      using d1 es fm by auto
    have b: "\<forall>q. q \<noteq> p \<longrightarrow> q \<notin> tmp_meta_path w ` fst ` set (fm # fms) \<longrightarrow> files s' q = files s q"
      using R(2) es fm by auto
    have d: "\<exists>(f, m) \<in> set (fm # fms). files s' (tmp_meta_path w f) = Some \<lparr>root = m, groups = []\<rparr>"
      using R(4) Some es fm by auto
    from a b d es show ?thesis by blast
  qed
qed

section \<open>What first-chunk initialization leaves in the file system\<close>

lemma steps_ConsE:
  assumes "steps (f # fs) s = (e, s')"
  obtains (continue) t where "f s = (None, t)" and "steps fs t = (e, s')"
    | (stop) x where "f s = (Some x, s')" and "e = Some x"
  using assms by (cases "f s") (auto split: option.splits)

lemma res_case_id: "(case x of None \<Rightarrow> (None, t) | Some e \<Rightarrow> (Some e, t)) = (x, t)"
  by (cases x) simp_all

lemma on_root_eq: "on_root f ds = (fst (f (root ds)), ds\<lparr>root := snd (f (root ds))\<rparr>)"
  by (simp add: on_root_def split: prod.splits)

lemma first_chunk_base:
  assumes r: "OutputWriter_write_first_chunk X w c s = (e, s')"
    and np: "paths w \<noteq> []"
    and nt: "\<forall>(f, m) \<in> set (forcing_meta w). tmp_meta_path w f \<noteq> last (paths w)"
  shows "\<exists>ds'. files s' (last (paths w)) = Some ds'
           \<and> (\<forall>n. n \<noteq> SOURCEFILE_GROUP_NAME \<longrightarrow> n \<notin> forcing_name ` fst ` set (forcing_meta w)
                 \<longrightarrow> map_of (groups ds') n = None)
           \<and> (e = None \<longrightarrow> init_root X w c empty_group = (None, root ds'))
           \<and> (e = None \<longrightarrow> sourcefile_path w \<noteq> last (paths w)
                 \<longrightarrow> SOURCEFILE_GROUP_NAME \<notin> forcing_name ` fst ` set (forcing_meta w)
                 \<longrightarrow> (\<exists>src. files s (sourcefile_path w) = Some src
                        \<and> copy_dataset (root src) empty_group
                            = (None, the (map_of (groups ds') SOURCEFILE_GROUP_NAME))))"
    and "\<forall>q. q \<noteq> last (paths w) \<longrightarrow> q \<notin> tmp_meta_path w ` fst ` set (forcing_meta w)
            \<longrightarrow> files s' q = files s q"
    and "e = None \<longrightarrow> (\<forall>(f, m) \<in> set (forcing_meta w). files s' (tmp_meta_path w f) = None)"
proof -
  let ?p = "last (paths w)"
  let ?S = SOURCEFILE_GROUP_NAME
  let ?names = "forcing_name ` fst ` set (forcing_meta w)"
  let ?tmps = "tmp_meta_path w ` fst ` set (forcing_meta w)"
  let ?dA = "\<lparr>root = empty_group, groups = [(?S, empty_group)]\<rparr>"
  let ?s0 = "s\<lparr>files := (files s)(?p \<mapsto> empty_dataset)\<rparr>"
  let ?sA = "?s0\<lparr>files := (files ?s0)(?p \<mapsto> ?dA)\<rparr>"
  let ?C = "\<exists>ds'. files s' ?p = Some ds'
           \<and> (\<forall>n. n \<noteq> ?S \<longrightarrow> n \<notin> ?names \<longrightarrow> map_of (groups ds') n = None)
           \<and> (e = None \<longrightarrow> init_root X w c empty_group = (None, root ds'))
           \<and> (e = None \<longrightarrow> sourcefile_path w \<noteq> ?p \<longrightarrow> ?S \<notin> ?names
                 \<longrightarrow> (\<exists>src. files s (sourcefile_path w) = Some src
                        \<and> copy_dataset (root src) empty_group = (None, the (map_of (groups ds') ?S))))"
  let ?D = "\<forall>q. q \<noteq> ?p \<longrightarrow> q \<notin> ?tmps \<longrightarrow> files s' q = files s q"
  let ?E = "e = None \<longrightarrow> (\<forall>(f, m) \<in> set (forcing_meta w). files s' (tmp_meta_path w f) = None)"
  have f1: "nc_create ?p s = (None, ?s0)" by (simp add: nc_create_def ok_def)
  have f2: "on_file ?p (createGroup ?S) ?s0 = (None, ?sA)"
    using on_file_Some[of ?s0 ?p empty_dataset "createGroup ?S"]
    by (simp add: createGroup_def ok_def empty_dataset_def)
  have all: "?C \<and> ?D \<and> ?E"
  proof (cases "files ?sA (sourcefile_path w)")
    case None
    have "OutputWriter_write_first_chunk X w c s = (Some FileNotFoundError, ?sA)"
      unfolding OutputWriter_write_first_chunk_def Let_def
      using np by (simp only: if_False steps.simps f1 f2 prod.case option.case None raise_def)
    then have "e = Some FileNotFoundError" "s' = ?sA" using r by simp_all
    then show ?thesis by simp
  next
    case (Some src)
    let ?c = "copy_dataset (root src) empty_group"
    let ?dB = "?dA\<lparr>groups := AList.update ?S (snd ?c) (groups ?dA)\<rparr>"
    let ?sB = "?sA\<lparr>files := (files ?sA)(?p \<mapsto> ?dB)\<rparr>"
    have pA: "files ?sA ?p = Some ?dA" by simp
    have gA: "map_of (groups ?dA) ?S = Some empty_group" by simp
    have f3: "on_file ?p (on_group ?S (copy_dataset (root src))) ?sA = (fst ?c, ?sB)"
      using on_file_Some[OF pA] on_group_Some[OF gA] by simp
    have srcs: "sourcefile_path w \<noteq> ?p \<Longrightarrow> files s (sourcefile_path w) = Some src"
      using Some by simp
    show ?thesis
    proof (cases "fst ?c")
      case (Some x)
      have "OutputWriter_write_first_chunk X w c s = (Some x, ?sB)"
        unfolding OutputWriter_write_first_chunk_def Let_def
        using np \<open>files ?sA (sourcefile_path w) = Some src\<close>
        by (simp only: if_False steps.simps f1 f2 prod.case option.case f3 Some)
      then have "e = Some x" "s' = ?sB" using r by simp_all
      then show ?thesis by simp
    next
      case None
      obtain eL sL where L: "steps (map (write_forcing_meta w ?p) (forcing_meta w)) ?sB = (eL, sL)"
        by (cases "steps (map (write_forcing_meta w ?p) (forcing_meta w)) ?sB")
      have pB: "files ?sB ?p = Some ?dB" by simp
      note FL = forcing_loop[OF L pB nt]
      from FL obtain dL where dL: "files sL ?p = Some dL" "root dL = empty_group"
        "\<forall>n. n \<notin> ?names \<longrightarrow> map_of (groups dL) n = map_of (groups ?dB) n"
        by auto
      have gother: "\<forall>n. n \<noteq> ?S \<longrightarrow> n \<notin> ?names \<longrightarrow> map_of (groups dL) n = None"
        using dL(3) by simp
      have gsrc: "?S \<notin> ?names \<Longrightarrow> the (map_of (groups dL) ?S) = snd ?c"
        using dL(3) by simp
      have fL: "\<forall>q. q \<noteq> ?p \<longrightarrow> q \<notin> ?tmps \<longrightarrow> files sL q = files s q"
        using FL by simp
      show ?thesis
      proof (cases eL)
        case (Some x)
        have "OutputWriter_write_first_chunk X w c s = (Some x, sL)"
          unfolding OutputWriter_write_first_chunk_def Let_def
          using np \<open>files ?sA (sourcefile_path w) = Some src\<close> L
          by (simp only: if_False steps.simps f1 f2 prod.case option.case f3 None Some)
        then have "e = Some x" "s' = sL" using r by simp_all
        then show ?thesis using dL(1) gother fL by simp
      next
        case eLN: None
        let ?i = "init_root X w c empty_group"
        let ?dF = "dL\<lparr>root := snd ?i\<rparr>"
        let ?sF = "sL\<lparr>files := (files sL)(?p \<mapsto> ?dF)\<rparr>"
        have f5: "on_file ?p (on_root (init_root X w c)) sL = (fst ?i, ?sF)"
          using on_file_Some[OF dL(1)] by (simp add: on_root_eq dL(2))
        have "OutputWriter_write_first_chunk X w c s = (fst ?i, ?sF)"
          unfolding OutputWriter_write_first_chunk_def Let_def
          using np \<open>files ?sA (sourcefile_path w) = Some src\<close> L
          by (simp only: if_False steps.simps f1 f2 prod.case option.case f3 None eLN f5 res_case_id)
        then have es: "e = fst ?i" "s' = ?sF" using r by simp_all
        have C: ?C
        proof -
          have "files s' ?p = Some ?dF" using es by simp
          moreover have "\<forall>n. n \<noteq> ?S \<longrightarrow> n \<notin> ?names \<longrightarrow> map_of (groups ?dF) n = None"
            using gother by simp
          moreover have "e = None \<longrightarrow> init_root X w c empty_group = (None, root ?dF)"
            using es by (simp add: prod_eq_iff)
          moreover have "e = None \<longrightarrow> sourcefile_path w \<noteq> ?p \<longrightarrow> ?S \<notin> ?names
                 \<longrightarrow> (\<exists>src. files s (sourcefile_path w) = Some src
                        \<and> copy_dataset (root src) empty_group = (None, the (map_of (groups ?dF) ?S)))"
            using srcs gsrc None by (auto simp: prod_eq_iff)
          ultimately show ?thesis by blast
        qed
        have D: ?D using fL es by simp
        have E: ?E using FL eLN es nt by (auto split: prod.splits)
        from C D E show ?thesis by blast
      qed
    qed
  qed
  from all show ?C and ?D and ?E by blast+
qed

section \<open>What the variants add to the root group\<close>

lemma createVariable_frame:
  "dims (snd (createVariable n dt ds g)) = dims g"
  "attrs (snd (createVariable n dt ds g)) = attrs g"
  "m \<noteq> n \<Longrightarrow> map_of (variables (snd (createVariable n dt ds g))) m = map_of (variables g) m"
  by (simp_all add: createVariable_def ok_def raise_def map_of_append_other del: map_of_append)

lemma on_variable_frame:
  "dims (snd (on_variable n f g)) = dims g"
  "attrs (snd (on_variable n f g)) = attrs g"
  "m \<noteq> n \<Longrightarrow> map_of (variables (snd (on_variable n f g))) m = map_of (variables g) m"
  by (simp_all add: on_variable_def raise_def update_conv' split: option.splits prod.splits)

lemma setncattr_frame:
  "dims (setncattr k a g) = dims g"
  "variables (setncattr k a g) = variables g"
  "j \<noteq> k \<Longrightarrow> map_of (attrs (setncattr k a g)) j = map_of (attrs g) j"
  "map_of (attrs (setncattr k a g)) k = Some a"
  by (simp_all add: setncattr_def update_conv')

text \<open>A variable created and then written: nothing else in the group changes.\<close>

lemma new_variable_frame:
  assumes "set fs \<subseteq> range (on_variable n)"
  shows "dims (snd (steps (createVariable n dt ds # fs) g)) = dims g"
    and "attrs (snd (steps (createVariable n dt ds # fs) g)) = attrs g"
    and "m \<noteq> n \<Longrightarrow> map_of (variables (snd (steps (createVariable n dt ds # fs) g))) m = map_of (variables g) m"
proof -
  have mem: "f = createVariable n dt ds \<or> (\<exists>h. f = on_variable n h)"
    if "f \<in> set (createVariable n dt ds # fs)" for f
    using that assms by auto
  show "dims (snd (steps (createVariable n dt ds # fs) g)) = dims g"
  proof (rule steps_invariant[where P = "\<lambda>t. dims t = dims g"])
    show "dims g = dims g" by simp
    fix f and t :: nc_group assume "f \<in> set (createVariable n dt ds # fs)" and "dims t = dims g"
    then show "dims (snd (f t)) = dims g"
      using mem[of f] by (auto simp: createVariable_frame on_variable_frame)
  qed
  show "attrs (snd (steps (createVariable n dt ds # fs) g)) = attrs g"
  proof (rule steps_invariant[where P = "\<lambda>t. attrs t = attrs g"])
    show "attrs g = attrs g" by simp
    fix f and t :: nc_group assume "f \<in> set (createVariable n dt ds # fs)" and "attrs t = attrs g"
    then show "attrs (snd (f t)) = attrs g"
      using mem[of f] by (auto simp: createVariable_frame on_variable_frame)
  qed
  assume mn: "m \<noteq> n"
  show "map_of (variables (snd (steps (createVariable n dt ds # fs) g))) m = map_of (variables g) m"
  proof (rule steps_invariant[where P = "\<lambda>t. map_of (variables t) m = map_of (variables g) m"])
    show "map_of (variables g) m = map_of (variables g) m" by simp
    fix f and t :: nc_group assume "f \<in> set (createVariable n dt ds # fs)" and "map_of (variables t) m = map_of (variables g) m"
    then show "map_of (variables (snd (f t))) m = map_of (variables g) m"
      using mem[of f] mn by (auto simp: createVariable_frame on_variable_frame)
  qed
qed

lemma static_3D_frame:
  "dims (snd (static_3D c n u g)) = dims g"
  "attrs (snd (static_3D c n u g)) = attrs g"
  "m \<noteq> n \<Longrightarrow> map_of (variables (snd (static_3D c n u g))) m = map_of (variables g) m"
proof -
  show "dims (snd (static_3D c n u g)) = dims g"
    unfolding static_3D_def
    by (rule steps_invariant[where P = "\<lambda>t. dims t = dims g"])
       (auto simp: createVariable_frame on_variable_frame raise_def split: option.splits)
  show "attrs (snd (static_3D c n u g)) = attrs g"
    unfolding static_3D_def
    by (rule steps_invariant[where P = "\<lambda>t. attrs t = attrs g"])
       (auto simp: createVariable_frame on_variable_frame raise_def split: option.splits)
  show "m \<noteq> n \<Longrightarrow> map_of (variables (snd (static_3D c n u g))) m = map_of (variables g) m"
    unfolding static_3D_def
    by (rule steps_invariant[where P = "\<lambda>t. map_of (variables t) m = map_of (variables g) m"])
       (auto simp: createVariable_frame on_variable_frame raise_def split: option.splits)
qed

lemma init_root_3D_dims: "dims (snd (init_root_3D w c g)) = dims g"
  unfolding init_root_3D_def
  by (rule steps_invariant[where P = "\<lambda>t. dims t = dims g"])
     (auto simp: static_3D_frame setncattr_frame ok_def raise_def new_variable_frame
           simp del: steps.simps split: option.splits)

lemma init_root_3D_attrs:
  assumes "k \<noteq> ''title''" and "k \<noteq> ''description''"
  shows "map_of (attrs (snd (init_root_3D w c g))) k = map_of (attrs g) k"
  unfolding init_root_3D_def
  by (rule steps_invariant[where P = "\<lambda>t. map_of (attrs t) k = map_of (attrs g) k"])
     (use assms in \<open>auto simp: static_3D_frame setncattr_frame ok_def raise_def new_variable_frame
           simp del: steps.simps split: option.splits\<close>)

lemma init_root_3D_variables:
  assumes "m \<noteq> ''radius''" and "m \<noteq> ''density''" and "m \<noteq> ''corey_shape_factor''" and "m \<noteq> ''depth''"
  shows "map_of (variables (snd (init_root_3D w c g))) m = map_of (variables g) m"
  unfolding init_root_3D_def
  by (rule steps_invariant[where P = "\<lambda>t. map_of (variables t) m = map_of (variables g) m"])
     (use assms in \<open>auto simp: static_3D_frame setncattr_frame ok_def raise_def new_variable_frame
           simp del: steps.simps split: option.splits\<close>)

section \<open>First-chunk initialization of the two variants\<close>

lemma steps_Cons_None:
  "steps (f # fs) s = (None, s') \<longleftrightarrow> (\<exists>t. f s = (None, t) \<and> steps fs t = (None, s'))"
  by (cases "f s") (auto split: option.splits)

lemma steps_Nil_None: "steps [] s = (None, s') \<longleftrightarrow> s' = s"
  by auto

lemmas steps_None = steps_Cons_None steps_Nil_None

lemma first_chunk_2D:
  assumes r: "OutputWriter2D_write_first_chunk X w c s = (None, s')"
    and np: "paths w \<noteq> []"
    and nt: "\<forall>(f, m) \<in> set (forcing_meta w). tmp_meta_path w f \<noteq> last (paths w)"
  shows "\<exists>s1 ds1. OutputWriter_write_first_chunk X w c s = (None, s1)
           \<and> files s1 (last (paths w)) = Some ds1
           \<and> files s' = (files s1)(last (paths w) \<mapsto>
                ds1\<lparr>root := setncattr ''description'' (AttStr (description_2D w))
                         (setncattr ''title'' (AttStr ''Trajectories of Floating Marine Debris'') (root ds1))\<rparr>)"
proof -
  let ?p = "last (paths w)"
  from r obtain s1 where b: "OutputWriter_write_first_chunk X w c s = (None, s1)"
    and f2: "on_file ?p (on_root (\<lambda>g. ok (setncattr ''description'' (AttStr (description_2D w))
                (setncattr ''title'' (AttStr ''Trajectories of Floating Marine Debris'') g)))) s1 = (None, s')"
    unfolding OutputWriter2D_write_first_chunk_def
    using np by (auto simp: steps_None simp del: steps.simps)
  from first_chunk_base(1)[OF b np nt] obtain ds1 where d: "files s1 ?p = Some ds1" by blast
  from f2 on_file_Some[OF d] have "files s' = (files s1)(?p \<mapsto>
                ds1\<lparr>root := setncattr ''description'' (AttStr (description_2D w))
                         (setncattr ''title'' (AttStr ''Trajectories of Floating Marine Debris'') (root ds1))\<rparr>)"
    by (auto simp: on_root_eq ok_def)
  with b d show ?thesis by blast
qed

lemma first_chunk_3D:
  assumes r: "OutputWriter3D_write_first_chunk X w cfg c s = (None, s')"
    and np: "paths w \<noteq> []"
    and nt: "\<forall>(f, m) \<in> set (forcing_meta w). tmp_meta_path w f \<noteq> last (paths w)"
  shows "\<exists>s1 ds1 ds' cf. OutputWriter_write_first_chunk X w c s = (None, s1)
           \<and> files s1 (last (paths w)) = Some ds1
           \<and> files s' = (files s1)(last (paths w) \<mapsto> ds')
           \<and> init_root_3D w c (root ds1) = (None, root ds')
           \<and> (\<forall>n. n \<noteq> ''configfile'' \<longrightarrow> map_of (groups ds') n = map_of (groups ds1) n)
           \<and> (if cfg = last (paths w) then True else files s1 cfg = Some cf)
           \<and> (cfg \<noteq> last (paths w) \<longrightarrow>
                copy_dataset (root cf) (case map_of (groups ds1) ''configfile'' of None \<Rightarrow> empty_group | Some g \<Rightarrow> g)
                  = (None, the (map_of (groups ds') ''configfile'')))"
proof -
  let ?p = "last (paths w)"
  let ?n = "''configfile''"
  from r obtain s1 sa sb where b: "OutputWriter_write_first_chunk X w c s = (None, s1)"
    and ra: "on_file ?p (createGroup ?n) s1 = (None, sa)"
    and rb: "(case files sa cfg of
                None \<Rightarrow> raise FileNotFoundError sa
              | Some configfile \<Rightarrow>
                  on_file ?p (on_group ?n (copy_dataset (root configfile))) sa) = (None, sb)"
    and rc: "on_file ?p (on_root (init_root_3D w c)) sb = (None, s')"
    unfolding OutputWriter3D_write_first_chunk_def Let_def
    using np by (auto simp: steps_None simp del: steps.simps)
  from first_chunk_base(1)[OF b np nt] obtain ds1 where d: "files s1 ?p = Some ds1" by blast
  let ?da = "snd (createGroup ?n ds1)"
  let ?sa = "s1\<lparr>files := (files s1)(?p \<mapsto> ?da)\<rparr>"
  let ?g = "case map_of (groups ds1) ?n of None \<Rightarrow> empty_group | Some g \<Rightarrow> g"
  have fa: "on_file ?p (createGroup ?n) s1 = (None, ?sa)"
    using on_file_Some[OF d, of "createGroup ?n"] by (simp add: createGroup_facts)
  with ra have sa: "sa = ?sa" by simp
  from rb sa obtain cf where cf: "files ?sa cfg = Some cf"
    and r3: "on_file ?p (on_group ?n (copy_dataset (root cf))) ?sa = (None, sb)"
    by (auto simp: raise_def split: option.splits)
  let ?cc = "copy_dataset (root cf) ?g"
  let ?db = "?da\<lparr>groups := AList.update ?n (snd ?cc) (groups ?da)\<rparr>"
  let ?sb = "?sa\<lparr>files := (files ?sa)(?p \<mapsto> ?db)\<rparr>"
  have pa: "files ?sa ?p = Some ?da" by simp
  have ga: "map_of (groups ?da) ?n = Some ?g" by (rule createGroup_facts)
  have fb: "on_file ?p (on_group ?n (copy_dataset (root cf))) ?sa = (fst ?cc, ?sb)"
    using on_file_Some[OF pa] on_group_Some[OF ga] by simp
  from r3 fb rc have cc: "fst ?cc = None"
    and r4: "on_file ?p (on_root (init_root_3D w c)) ?sb = (None, s')"
    by auto
  let ?i = "init_root_3D w c (root ds1)"
  let ?dc = "?db\<lparr>root := snd ?i\<rparr>"
  have pb: "files ?sb ?p = Some ?db" by simp
  have rtb: "root ?db = root ds1" by (simp add: createGroup_facts)
  from r4 on_file_Some[OF pb, of "on_root (init_root_3D w c)"]
  have i: "fst ?i = None" and s': "s' = ?sb\<lparr>files := (files ?sb)(?p \<mapsto> ?dc)\<rparr>"
    by (simp_all add: on_root_eq rtb)
  have 1: "files s' = (files s1)(?p \<mapsto> ?dc)" using s' by simp
  have 2: "init_root_3D w c (root ds1) = (None, root ?dc)" using i by (simp add: prod_eq_iff)
  have 3: "\<forall>n. n \<noteq> ?n \<longrightarrow> map_of (groups ?dc) n = map_of (groups ds1) n"
    by (simp add: update_conv' createGroup_facts)
  have 4: "if cfg = ?p then True else files s1 cfg = Some cf" using cf by (simp split: if_splits)
  have 5: "copy_dataset (root cf) ?g = (None, the (map_of (groups ?dc) ?n))"
    using cc by (simp add: update_conv' prod_eq_iff)
  from b d 1 2 3 4 5 show ?thesis by blast
qed

section \<open>When first-chunk initialization returns\<close>

lemma forcing_loop_ok:
  assumes "files s p = Some ds"
    and "\<forall>(f, m) \<in> set fms. tmp_meta_path w f \<noteq> p"
    and "distinct (map (\<lambda>(f, m). forcing_name f) fms)"
    and "\<forall>(f, m) \<in> set fms. map_of (groups ds) (forcing_name f) = None"
    and "\<forall>(f, m) \<in> set fms. distinct (map fst (dims m)) \<and> distinct (map fst (variables m))"
  shows "fst (steps (map (write_forcing_meta w p) fms) s) = None"
  using assms
proof (induction fms arbitrary: s ds)
  case Nil
  then show ?case by simp
next
  case (Cons fm fms)
  obtain f m where fm: "fm = (f, m)" by (cases fm)
  obtain e1 s1 where r1: "write_forcing_meta w p (f, m) s = (e1, s1)"
    by (cases "write_forcing_meta w p (f, m) s")
  have t: "tmp_meta_path w f \<noteq> p" using Cons.prems(2) fm by simp
  note R = write_forcing_meta_round[OF Cons.prems(1) t r1]
  have g: "map_of (groups ds) (forcing_name f) = None" using Cons.prems(4) fm by simp
  have "fst (copy_dataset m (setncattr (forcing_name f @ ''_meta_group_description'')
            (AttStr (meta_group_description f)) empty_group)) = None"
    using Cons.prems(5) fm
    by (intro copy_dataset_fresh) (simp_all add: setncattr_def empty_group_def)
  then have e1: "e1 = None" using R(5) g by simp
  from R(1) obtain ds1 where d1: "files s1 p = Some ds1"
    "\<forall>n. n \<noteq> forcing_name f \<longrightarrow> map_of (groups ds1) n = map_of (groups ds) n" by blast
  have "fst (steps (map (write_forcing_meta w p) fms) s1) = None"
  proof (rule Cons.IH[OF d1(1)])
    show "\<forall>(f, m) \<in> set fms. tmp_meta_path w f \<noteq> p" using Cons.prems(2) by simp
    show "distinct (map (\<lambda>(f, m). forcing_name f) fms)" using Cons.prems(3) by simp
    show "\<forall>(f, m) \<in> set fms. map_of (groups ds1) (forcing_name f) = None"
    proof (clarify)
      fix f' m' assume m: "(f', m') \<in> set fms"
      then have "forcing_name f' \<noteq> forcing_name f"
        using Cons.prems(3) fm by (auto simp: image_iff)
      then show "map_of (groups ds1) (forcing_name f') = None"
        using d1(2) Cons.prems(4) m by auto
    qed
    show "\<forall>(f, m) \<in> set fms. distinct (map fst (dims m)) \<and> distinct (map fst (variables m))"
      using Cons.prems(5) by simp
  qed
  then show ?case using fm r1 e1 by simp
qed

lemma first_chunk_base_ok:
  assumes np: "paths w \<noteq> []"
    and nt: "\<forall>(f, m) \<in> set (forcing_meta w). tmp_meta_path w f \<noteq> last (paths w)"
    and sp: "sourcefile_path w \<noteq> last (paths w)"
    and src: "files s (sourcefile_path w) = Some src"
    and rs: "distinct (map fst (dims (root src)))" "distinct (map fst (variables (root src)))"
    and dn: "distinct (map (\<lambda>(f, m). forcing_name f) (forcing_meta w))"
    and sn: "SOURCEFILE_GROUP_NAME \<notin> forcing_name ` fst ` set (forcing_meta w)"
    and rm: "\<forall>(f, m) \<in> set (forcing_meta w). distinct (map fst (dims m)) \<and> distinct (map fst (variables m))"
    and lon: "get_var c ''lon'' \<noteq> None" and lat: "get_var c ''lat'' \<noteq> None"
  shows "fst (OutputWriter_write_first_chunk X w c s) = None"
proof -
  let ?p = "last (paths w)"
  let ?S = SOURCEFILE_GROUP_NAME
  let ?dA = "\<lparr>root = empty_group, groups = [(?S, empty_group)]\<rparr>"
  let ?s0 = "s\<lparr>files := (files s)(?p \<mapsto> empty_dataset)\<rparr>"
  let ?sA = "?s0\<lparr>files := (files ?s0)(?p \<mapsto> ?dA)\<rparr>"
  let ?c = "copy_dataset (root src) empty_group"
  let ?dB = "?dA\<lparr>groups := AList.update ?S (snd ?c) (groups ?dA)\<rparr>"
  let ?sB = "?sA\<lparr>files := (files ?sA)(?p \<mapsto> ?dB)\<rparr>"
  have f1: "nc_create ?p s = (None, ?s0)" by (simp add: nc_create_def ok_def)
  have f2: "on_file ?p (createGroup ?S) ?s0 = (None, ?sA)"
    using on_file_Some[of ?s0 ?p empty_dataset "createGroup ?S"]
    by (simp add: createGroup_def ok_def empty_dataset_def)
  have srcA: "files ?sA (sourcefile_path w) = Some src" using src sp by simp
  have pA: "files ?sA ?p = Some ?dA" by simp
  have gA: "map_of (groups ?dA) ?S = Some empty_group" by simp
  have f3: "on_file ?p (on_group ?S (copy_dataset (root src))) ?sA = (fst ?c, ?sB)"
    using on_file_Some[OF pA] on_group_Some[OF gA] by simp
  have c: "fst ?c = None"
    using rs by (intro copy_dataset_fresh) (simp_all add: empty_group_def)
  obtain sL where L: "steps (map (write_forcing_meta w ?p) (forcing_meta w)) ?sB = (None, sL)"
  proof -
    have pB: "files ?sB ?p = Some ?dB" by simp
    have "fst (steps (map (write_forcing_meta w ?p) (forcing_meta w)) ?sB) = None"
    proof (rule forcing_loop_ok[OF pB nt dn _ rm], clarify)
      fix f m assume "(f, m) \<in> set (forcing_meta w)"
      then have "forcing_name f \<noteq> ?S" using sn by (auto simp: image_iff)
      then show "map_of (groups ?dB) (forcing_name f) = None" by simp
    qed
    then show ?thesis using that
      by (cases "steps (map (write_forcing_meta w ?p) (forcing_meta w)) ?sB") simp
  qed
  have pB: "files ?sB ?p = Some ?dB" by simp
  from forcing_loop[OF L pB nt] obtain dL where dL: "files sL ?p = Some dL" "root dL = empty_group"
    by auto
  let ?i = "init_root X w c empty_group"
  let ?dF = "dL\<lparr>root := snd ?i\<rparr>"
  let ?sF = "sL\<lparr>files := (files sL)(?p \<mapsto> ?dF)\<rparr>"
  have f5: "on_file ?p (on_root (init_root X w c)) sL = (fst ?i, ?sF)"
    using on_file_Some[OF dL(1)] by (simp add: on_root_eq dL(2))
  have i: "fst ?i = None"
    using lon lat init_root_empty[of c _ _ X w] by auto
  have "OutputWriter_write_first_chunk X w c s = (fst ?i, ?sF)"
    unfolding OutputWriter_write_first_chunk_def Let_def
    using np srcA L
    by (simp only: if_False steps.simps f1 f2 prod.case option.case f3 c f5 res_case_id)
  then show ?thesis using i by simp
qed

lemma write_first_chunk_root:
  assumes r: "write_first_chunk X w c s = (None, s')"
    and np: "paths w \<noteq> []"
    and nt: "\<forall>(f, m) \<in> set (forcing_meta w). tmp_meta_path w f \<noteq> last (paths w)"
  shows "\<exists>ds' g0. files s' (last (paths w)) = Some ds'
           \<and> init_root X w c empty_group = (None, g0)
           \<and> dims (root ds') = dims g0
           \<and> (\<forall>k. k \<noteq> ''title'' \<longrightarrow> k \<noteq> ''description'' \<longrightarrow>
                  map_of (attrs (root ds')) k = map_of (attrs g0) k)
           \<and> (\<forall>m. m \<noteq> ''radius'' \<longrightarrow> m \<noteq> ''density'' \<longrightarrow> m \<noteq> ''corey_shape_factor'' \<longrightarrow> m \<noteq> ''depth'' \<longrightarrow>
                  map_of (variables (root ds')) m = map_of (variables g0) m)"
proof (cases "writer_class w")
  case OutputWriter2D
  then have "OutputWriter2D_write_first_chunk X w c s = (None, s')"
    using r by (simp add: write_first_chunk_def)
  from first_chunk_2D[OF this np nt] obtain s1 ds1 where
    b: "OutputWriter_write_first_chunk X w c s = (None, s1)"
    and d: "files s1 (last (paths w)) = Some ds1"
    and f: "files s' = (files s1)(last (paths w) \<mapsto>
                ds1\<lparr>root := setncattr ''description'' (AttStr (description_2D w))
                         (setncattr ''title'' (AttStr ''Trajectories of Floating Marine Debris'') (root ds1))\<rparr>)"
    by blast
  from first_chunk_base(1)[OF b np nt] d have i: "init_root X w c empty_group = (None, root ds1)"
    by auto
  show ?thesis using f i by (auto simp: setncattr_frame)
next
  case (OutputWriter3D cfg)
  then have "OutputWriter3D_write_first_chunk X w cfg c s = (None, s')"
    using r by (simp add: write_first_chunk_def)
  from first_chunk_3D[OF this np nt] obtain s1 ds1 ds' where
    b: "OutputWriter_write_first_chunk X w c s = (None, s1)"
    and d: "files s1 (last (paths w)) = Some ds1"
    and f: "files s' = (files s1)(last (paths w) \<mapsto> ds')"
    and i3: "init_root_3D w c (root ds1) = (None, root ds')"
    by blast
  from first_chunk_base(1)[OF b np nt] d have i: "init_root X w c empty_group = (None, root ds1)"
    by auto
  have rd: "root ds' = snd (init_root_3D w c (root ds1))" using i3 by simp
  show ?thesis
    using f i by (auto simp: rd init_root_3D_dims init_root_3D_attrs init_root_3D_variables)
qed

lemma write_first_chunk_2D_ok:
  assumes "writer_class w = OutputWriter2D"
    and "fst (OutputWriter_write_first_chunk X w c s) = None"
    and np: "paths w \<noteq> []"
    and nt: "\<forall>(f, m) \<in> set (forcing_meta w). tmp_meta_path w f \<noteq> last (paths w)"
  shows "fst (write_first_chunk X w c s) = None"
proof -
  obtain s1 where b: "OutputWriter_write_first_chunk X w c s = (None, s1)"
    using assms(2) by (cases "OutputWriter_write_first_chunk X w c s") simp
  from first_chunk_base(1)[OF b np nt] obtain ds1 where d: "files s1 (last (paths w)) = Some ds1"
    by blast
  show ?thesis
    using assms(1) np b on_file_Some[OF d]
    by (simp add: write_first_chunk_def OutputWriter2D_write_first_chunk_def on_root_eq ok_def)
qed

section \<open>The example run\<close>

lemma py_str_int_years:
  "py_str_int 1999 = ''1999''" "py_str_int 2000 = ''2000''" "py_str_int 2001 = ''2001''"
  by code_simp+

lemmas demo_defs = demo_writer_def demo_fs_def demo_source_def demo_meta_def demo_chunk_def
  particle_row_def particle_static_def demo_externals_def

lemmas demo_path_defs = set_current_year_def year_path_def tmp_meta_path_def py_str_int_years

lemma demo_base_ok:
  "fst (OutputWriter_write_first_chunk demo_externals (set_current_year 1999 (demo_writer cls))
          (demo_chunk ts code) demo_fs) = None"
  by (rule first_chunk_base_ok[where src = demo_source])
     (simp_all add: demo_path_defs demo_defs SOURCEFILE_GROUP_NAME_def get_var_def)

lemma demo_2D_ok:
  "fst (write_first_chunk demo_externals (set_current_year 1999 (demo_writer OutputWriter2D))
          (demo_chunk ts code) demo_fs) = None"
  by (rule write_first_chunk_2D_ok[OF _ demo_base_ok])
     (simp_all add: demo_path_defs demo_defs)

section \<open>A variable created and written in one go\<close>

lemma on_variables_last:
  assumes "n \<notin> fst ` set vs" and "\<And>h u. h \<in> set hs \<Longrightarrow> fst (h u) = None"
  shows "steps (map (on_variable n) hs) (g\<lparr>variables := vs @ [(n, v)]\<rparr>)
           = (None, g\<lparr>variables := vs @ [(n, fold (\<lambda>h u. snd (h u)) hs v)]\<rparr>)"
  using assms(2)
proof (induction hs arbitrary: v)
  case Nil
  then show ?case by simp
next
  case (Cons h hs)
  have h: "h v = (None, snd (h v))" using Cons.prems[of h v] by (simp add: prod_eq_iff)
  have "on_variable n h (g\<lparr>variables := vs @ [(n, v)]\<rparr>)
          = (None, g\<lparr>variables := vs @ [(n, snd (h v))]\<rparr>)"
    using on_variable_last[where n = n and vs = vs and g = "g\<lparr>variables := vs @ [(n, v)]\<rparr>"
        and v = v and f = h and e = None and v' = "snd (h v)"] assms(1) h by simp
  moreover have "steps (map (on_variable n) hs) (g\<lparr>variables := vs @ [(n, snd (h v))]\<rparr>)
          = (None, g\<lparr>variables := vs @ [(n, fold (\<lambda>h u. snd (h u)) hs (snd (h v)))]\<rparr>)"
    using Cons.prems by (intro Cons.IH) simp
  ultimately show ?case by simp
qed

lemma create_and_write:
  assumes "n \<notin> fst ` set (variables g)" and "\<And>h u. h \<in> set hs \<Longrightarrow> fst (h u) = None"
  shows "steps (createVariable n dt ds # map (on_variable n) hs) g
           = (None, g\<lparr>variables := variables g @
                [(n, fold (\<lambda>h u. snd (h u)) hs
                       \<lparr>var_datatype = dt, dimensions = ds, ncattrs = [], data = NoData\<rparr>)]\<rparr>)"
proof -
  have c: "createVariable n dt ds g = (None, g\<lparr>variables := variables g @
             [(n, \<lparr>var_datatype = dt, dimensions = ds, ncattrs = [], data = NoData\<rparr>)]\<rparr>)"
    using assms(1) by (simp add: createVariable_def ok_def)
  have "steps (map (on_variable n) hs)
          (g\<lparr>variables := variables g @
             [(n, \<lparr>var_datatype = dt, dimensions = ds, ncattrs = [], data = NoData\<rparr>)]\<rparr>)
        = (None, g\<lparr>variables := variables g @
                [(n, fold (\<lambda>h u. snd (h u)) hs
                       \<lparr>var_datatype = dt, dimensions = ds, ncattrs = [], data = NoData\<rparr>)]\<rparr>)"
    by (rule on_variables_last[where vs = "variables g"]) (use assms in auto)
  then show ?thesis by (simp add: c)
qed

lemma static_3D_fresh:
  assumes "n \<notin> fst ` set (variables g)" and "get_var c n = Some x"
  shows "static_3D c n u g
           = (None, g\<lparr>variables := variables g @
                [(n, \<lparr>var_datatype = Float64, dimensions = [''p_id''],
                       ncattrs = [(''units'', AttStr u)], data = xr_values x\<rparr>)]\<rparr>)"
proof -
  have "static_3D c n u g = steps (createVariable n Float64 [''p_id'']
          # map (on_variable n) [var_setncattr ''units'' (AttStr u), assign_all (xr_values x)]) g"
    by (simp add: static_3D_def assms(2))
  also have "\<dots> = (None, g\<lparr>variables := variables g @
                [(n, fold (\<lambda>h u. snd (h u)) [var_setncattr ''units'' (AttStr u), assign_all (xr_values x)]
                       \<lparr>var_datatype = Float64, dimensions = [''p_id''], ncattrs = [], data = NoData\<rparr>)]\<rparr>)"
    by (rule create_and_write[OF assms(1)]) (auto simp: var_setncattr_def assign_all_def ok_def)
  finally show ?thesis by (simp add: var_setncattr_def assign_all_def ok_def)
qed

lemma depth_fresh:
  assumes "''depth'' \<notin> fst ` set (variables g)"
  shows "steps [createVariable ''depth'' dt [''p_id'', ''time''],
                on_variable ''depth'' (var_setncattr ''units'' (AttStr ''meters'')),
                on_variable ''depth'' (var_setncattr ''positive'' (AttStr ''up'')),
                on_variable ''depth'' (assign_all d)] g
           = (None, g\<lparr>variables := variables g @
                [(''depth'', \<lparr>var_datatype = dt, dimensions = [''p_id'', ''time''],
                       ncattrs = [(''units'', AttStr ''meters''), (''positive'', AttStr ''up'')],
                       data = d\<rparr>)]\<rparr>)"
proof -
  have "steps (createVariable ''depth'' dt [''p_id'', ''time'']
          # map (on_variable ''depth'') [var_setncattr ''units'' (AttStr ''meters''),
               var_setncattr ''positive'' (AttStr ''up''), assign_all d]) g
       = (None, g\<lparr>variables := variables g @
                [(''depth'', fold (\<lambda>h u. snd (h u)) [var_setncattr ''units'' (AttStr ''meters''),
               var_setncattr ''positive'' (AttStr ''up''), assign_all d]
                       \<lparr>var_datatype = dt, dimensions = [''p_id'', ''time''], ncattrs = [], data = NoData\<rparr>)]\<rparr>)"
    by (rule create_and_write[OF assms]) (auto simp: var_setncattr_def assign_all_def ok_def)
  then show ?thesis by (simp add: var_setncattr_def assign_all_def ok_def)
qed

lemma init_root_3D_fresh:
  assumes r: "get_var c ''radius'' = Some r" and d: "get_var c ''density'' = Some d"
    and k: "get_var c ''corey_shape_factor'' = Some k" and z: "get_var c ''depth'' = Some z"
    and f: "''radius'' \<notin> fst ` set (variables g)" "''density'' \<notin> fst ` set (variables g)"
      "''corey_shape_factor'' \<notin> fst ` set (variables g)" "''depth'' \<notin> fst ` set (variables g)"
  shows "init_root_3D w c g =
    (None, g\<lparr>attrs := AList.update ''description'' (AttStr (description_3D w))
                    (AList.update ''title'' (AttStr ''Trajectories of Marine Debris'') (attrs g)),
              variables := variables g @
                [(''radius'', \<lparr>var_datatype = Float64, dimensions = [''p_id''],
                       ncattrs = [(''units'', AttStr ''meters'')], data = xr_values r\<rparr>),
                 (''density'', \<lparr>var_datatype = Float64, dimensions = [''p_id''],
                       ncattrs = [(''units'', AttStr ''kg m^-3'')], data = xr_values d\<rparr>),
                 (''corey_shape_factor'', \<lparr>var_datatype = Float64, dimensions = [''p_id''],
                       ncattrs = [(''units'', AttStr ''unitless'')], data = xr_values k\<rparr>),
                 (''depth'', \<lparr>var_datatype = xr_dtype z, dimensions = [''p_id'', ''time''],
                       ncattrs = [(''units'', AttStr ''meters''), (''positive'', AttStr ''up'')],
                       data = xr_values z\<rparr>)]\<rparr>)"
proof -
  let ?g1 = "setncattr ''description'' (AttStr (description_3D w))
               (setncattr ''title'' (AttStr ''Trajectories of Marine Debris'') g)"
  let ?vr = "(''radius'', \<lparr>var_datatype = Float64, dimensions = [''p_id''],
                       ncattrs = [(''units'', AttStr ''meters'')], data = xr_values r\<rparr>)"
  let ?vd = "(''density'', \<lparr>var_datatype = Float64, dimensions = [''p_id''],
                       ncattrs = [(''units'', AttStr ''kg m^-3'')], data = xr_values d\<rparr>)"
  let ?vk = "(''corey_shape_factor'', \<lparr>var_datatype = Float64, dimensions = [''p_id''],
                       ncattrs = [(''units'', AttStr ''unitless'')], data = xr_values k\<rparr>)"
  let ?vz = "(''depth'', \<lparr>var_datatype = xr_dtype z, dimensions = [''p_id'', ''time''],
                       ncattrs = [(''units'', AttStr ''meters''), (''positive'', AttStr ''up'')],
                       data = xr_values z\<rparr>)"
  let ?g2 = "?g1\<lparr>variables := variables ?g1 @ [?vr]\<rparr>"
  let ?g3 = "?g2\<lparr>variables := variables ?g2 @ [?vd]\<rparr>"
  let ?g4 = "?g3\<lparr>variables := variables ?g3 @ [?vk]\<rparr>"
  let ?g5 = "?g4\<lparr>variables := variables ?g4 @ [?vz]\<rparr>"
  have s1: "static_3D c ''radius'' ''meters'' ?g1 = (None, ?g2)"
    by (rule static_3D_fresh[OF _ r]) (simp add: setncattr_def f)
  have s2: "static_3D c ''density'' ''kg m^-3'' ?g2 = (None, ?g3)"
    by (rule static_3D_fresh[OF _ d]) (simp add: setncattr_def f)
  have s3: "static_3D c ''corey_shape_factor'' ''unitless'' ?g3 = (None, ?g4)"
    by (rule static_3D_fresh[OF _ k]) (simp add: setncattr_def f)
  define D where "D = (\<lambda>g. case get_var c ''depth'' of
                    None \<Rightarrow> raise AttributeError g
                  | Some depth \<Rightarrow>
                      steps [createVariable ''depth'' (xr_dtype depth) [''p_id'', ''time''],
                             on_variable ''depth'' (var_setncattr ''units'' (AttStr ''meters'')),
                             on_variable ''depth'' (var_setncattr ''positive'' (AttStr ''up'')),
                             on_variable ''depth'' (assign_all (xr_values depth))] g)"
  have "steps [createVariable ''depth'' (xr_dtype z) [''p_id'', ''time''],
                on_variable ''depth'' (var_setncattr ''units'' (AttStr ''meters'')),
                on_variable ''depth'' (var_setncattr ''positive'' (AttStr ''up'')),
                on_variable ''depth'' (assign_all (xr_values z))] ?g4 = (None, ?g5)"
    by (rule depth_fresh) (simp add: setncattr_def f)
  then have s4: "D ?g4 = (None, ?g5)" unfolding D_def z by simp
  have "init_root_3D w c g = (None, ?g5)"
    unfolding init_root_3D_def D_def[symmetric]
    by (simp only: steps.simps ok_def prod.case option.case s1 s2 s3 s4)
  then show ?thesis by (simp add: setncattr_def)
qed

section \<open>Provenance and exit codes in the new container\<close>

lemma year_path_tmp_free:
  assumes "last (paths w) = year_path w year"
  shows "\<forall>(f, m) \<in> set (forcing_meta w). tmp_meta_path w f \<noteq> last (paths w)"
  using assms year_path_not_tmp[of w year] by (auto simp: eq_commute)

lemma init_root_None:
  assumes "init_root X w c empty_group = (None, g0)"
  obtains lon lat where "get_var c ''lon'' = Some lon" and "get_var c ''lat'' = Some lat"
proof -
  have "\<not> (get_var c ''lon'' = None \<or> get_var c ''lat'' = None)"
  proof
    assume "get_var c ''lon'' = None \<or> get_var c ''lat'' = None"
    from init_root_empty_fault[OF this, of X w] have "fst (init_root X w c empty_group) \<noteq> None"
      by simp
    then show False unfolding assms by simp
  qed
  then show ?thesis using that by auto
qed

lemma init_root_attrs:
  assumes "init_root X w c empty_group = (None, g0)"
  shows "attrs g0 = [(''institution'', AttStr ''The Ocean Cleanup''),
               (''source'', AttStr (''ADVECTOR Version '' @ version X)),
               (''arguments'', AttStr (arguments_text w))]"
proof -
  from assms obtain lon lat where l: "get_var c ''lon'' = Some lon" "get_var c ''lat'' = Some lat"
    by (rule init_root_None)
  have "attrs (snd (init_root X w c empty_group)) = [(''institution'', AttStr ''The Ocean Cleanup''),
               (''source'', AttStr (''ADVECTOR Version '' @ version X)),
               (''arguments'', AttStr (arguments_text w))]"
    unfolding init_root_empty[OF l] by simp
  then show ?thesis unfolding assms by simp
qed

lemma init_root_variables:
  assumes "init_root X w c empty_group = (None, g0)"
  shows "\<exists>lon lat. get_var c ''lon'' = Some lon \<and> get_var c ''lat'' = Some lat \<and> variables g0 =
        [(''p_id'', \<lparr>var_datatype = p_id_dtype c, dimensions = [''p_id''], ncattrs = [],
                     data = D1 (map real_of_int (p_id c))\<rparr>),
         (''release_date'', \<lparr>var_datatype = Float64, dimensions = [''p_id''],
                     ncattrs = [(''units'', seconds_units), (''calendar'', AttStr ''gregorian'')],
                     data = D1 (as_float_seconds (release_date c))\<rparr>),
         (''exit_code'', \<lparr>var_datatype = Int8, dimensions = [''p_id''],
                     ncattrs = [(''description'', AttStr exit_code_description),
                                (''code_to_meaning'', AttStr (code_to_meaning_text X))],
                     data = D1 (map (\<lambda>n. real_of_int (astype_byte n)) (exit_code c))\<rparr>),
         (''time'', \<lparr>var_datatype = Float64, dimensions = [''time''],
                     ncattrs = [(''units'', seconds_units), (''calendar'', AttStr ''gregorian'')],
                     data = D1 (as_float_seconds (time c))\<rparr>),
         (''lon'', \<lparr>var_datatype = xr_dtype lon, dimensions = [''p_id'', ''time''],
                     ncattrs = [(''units'', AttStr ''Degrees East'')], data = xr_values lon\<rparr>),
         (''lat'', \<lparr>var_datatype = xr_dtype lat, dimensions = [''p_id'', ''time''],
                     ncattrs = [(''units'', AttStr ''Degrees North'')], data = xr_values lat\<rparr>)]"
proof -
  from assms obtain lon lat where l: "get_var c ''lon'' = Some lon" "get_var c ''lat'' = Some lat"
    by (rule init_root_None)
  have "variables (snd (init_root X w c empty_group)) =
        [(''p_id'', \<lparr>var_datatype = p_id_dtype c, dimensions = [''p_id''], ncattrs = [],
                     data = D1 (map real_of_int (p_id c))\<rparr>),
         (''release_date'', \<lparr>var_datatype = Float64, dimensions = [''p_id''],
                     ncattrs = [(''units'', seconds_units), (''calendar'', AttStr ''gregorian'')],
                     data = D1 (as_float_seconds (release_date c))\<rparr>),
         (''exit_code'', \<lparr>var_datatype = Int8, dimensions = [''p_id''],
                     ncattrs = [(''description'', AttStr exit_code_description),
                                (''code_to_meaning'', AttStr (code_to_meaning_text X))],
                     data = D1 (map (\<lambda>n. real_of_int (astype_byte n)) (exit_code c))\<rparr>),
         (''time'', \<lparr>var_datatype = Float64, dimensions = [''time''],
                     ncattrs = [(''units'', seconds_units), (''calendar'', AttStr ''gregorian'')],
                     data = D1 (as_float_seconds (time c))\<rparr>),
         (''lon'', \<lparr>var_datatype = xr_dtype lon, dimensions = [''p_id'', ''time''],
                     ncattrs = [(''units'', AttStr ''Degrees East'')], data = xr_values lon\<rparr>),
         (''lat'', \<lparr>var_datatype = xr_dtype lat, dimensions = [''p_id'', ''time''],
                     ncattrs = [(''units'', AttStr ''Degrees North'')], data = xr_values lat\<rparr>)]"
    unfolding init_root_empty[OF l] by simp
  then show ?thesis using l unfolding assms by simp
qed

lemma write_first_chunk_rootE:
  assumes "write_first_chunk X w c s = (None, s')"
    and "paths w \<noteq> []"
    and "\<forall>(f, m) \<in> set (forcing_meta w). tmp_meta_path w f \<noteq> last (paths w)"
  obtains ds' g0 where "files s' (last (paths w)) = Some ds'"
    and "init_root X w c empty_group = (None, g0)"
    and "dims (root ds') = dims g0"
    and "\<And>k. k \<noteq> ''title'' \<Longrightarrow> k \<noteq> ''description'' \<Longrightarrow>
                  map_of (attrs (root ds')) k = map_of (attrs g0) k"
    and "\<And>m. m \<noteq> ''radius'' \<Longrightarrow> m \<noteq> ''density'' \<Longrightarrow> m \<noteq> ''corey_shape_factor'' \<Longrightarrow> m \<noteq> ''depth'' \<Longrightarrow>
                  map_of (variables (root ds')) m = map_of (variables g0) m"
proof -
  from write_first_chunk_root[OF assms] show ?thesis
    by (elim exE conjE) (rule that, assumption+, simp_all)
qed

lemma first_chunk_provenance:
  assumes r: "write_first_chunk X w c s = (None, s')"
    and np: "paths w \<noteq> []"
    and nt: "\<forall>(f, m) \<in> set (forcing_meta w). tmp_meta_path w f \<noteq> last (paths w)"
  shows "\<exists>ds. files s' (last (paths w)) = Some ds
           \<and> map_of (attrs (root ds)) ''institution'' = Some (AttStr ''The Ocean Cleanup'')
           \<and> map_of (attrs (root ds)) ''source'' = Some (AttStr (''ADVECTOR Version '' @ version X))
           \<and> map_of (attrs (root ds)) ''arguments'' = Some (AttStr (arguments_text w))"
proof -
  obtain ds' g0 where d: "files s' (last (paths w)) = Some ds'"
    and i: "init_root X w c empty_group = (None, g0)"
    and dm: "dims (root ds') = dims g0"
    and a: "\<And>k. k \<noteq> ''title'' \<Longrightarrow> k \<noteq> ''description'' \<Longrightarrow>
                  map_of (attrs (root ds')) k = map_of (attrs g0) k"
    and vm: "\<And>m. m \<noteq> ''radius'' \<Longrightarrow> m \<noteq> ''density'' \<Longrightarrow> m \<noteq> ''corey_shape_factor'' \<Longrightarrow> m \<noteq> ''depth'' \<Longrightarrow>
                  map_of (variables (root ds')) m = map_of (variables g0) m"
    by (rule write_first_chunk_rootE[OF r np nt]) (rule that)
  have 1: "map_of (attrs (root ds')) ''institution'' = Some (AttStr ''The Ocean Cleanup'')"
    by (subst a) (simp_all add: init_root_attrs[OF i])
  have 2: "map_of (attrs (root ds')) ''source'' = Some (AttStr (''ADVECTOR Version '' @ version X))"
    by (subst a) (simp_all add: init_root_attrs[OF i])
  have 3: "map_of (attrs (root ds')) ''arguments'' = Some (AttStr (arguments_text w))"
    by (subst a) (simp_all add: init_root_attrs[OF i])
  from d 1 2 3 show ?thesis by blast
qed

lemma first_chunk_exit_code:
  assumes r: "write_first_chunk X w c s = (None, s')"
    and np: "paths w \<noteq> []"
    and nt: "\<forall>(f, m) \<in> set (forcing_meta w). tmp_meta_path w f \<noteq> last (paths w)"
  shows "\<exists>ds. files s' (last (paths w)) = Some ds
           \<and> map_of (variables (root ds)) ''exit_code'' =
               Some \<lparr>var_datatype = Int8, dimensions = [''p_id''],
                     ncattrs = [(''description'', AttStr exit_code_description),
                                (''code_to_meaning'', AttStr (code_to_meaning_text X))],
                     data = D1 (map (\<lambda>n. real_of_int (astype_byte n)) (exit_code c))\<rparr>"
proof -
  obtain ds' g0 where d: "files s' (last (paths w)) = Some ds'"
    and i: "init_root X w c empty_group = (None, g0)"
    and dm: "dims (root ds') = dims g0"
    and a: "\<And>k. k \<noteq> ''title'' \<Longrightarrow> k \<noteq> ''description'' \<Longrightarrow>
                  map_of (attrs (root ds')) k = map_of (attrs g0) k"
    and vm: "\<And>m. m \<noteq> ''radius'' \<Longrightarrow> m \<noteq> ''density'' \<Longrightarrow> m \<noteq> ''corey_shape_factor'' \<Longrightarrow> m \<noteq> ''depth'' \<Longrightarrow>
                  map_of (variables (root ds')) m = map_of (variables g0) m"
    by (rule write_first_chunk_rootE[OF r np nt]) (rule that)
  have v: "map_of (variables g0) ''exit_code'' =
               Some \<lparr>var_datatype = Int8, dimensions = [''p_id''],
                     ncattrs = [(''description'', AttStr exit_code_description),
                                (''code_to_meaning'', AttStr (code_to_meaning_text X))],
                     data = D1 (map (\<lambda>n. real_of_int (astype_byte n)) (exit_code c))\<rparr>"
    using init_root_variables[OF i] by (elim exE conjE) simp
  have "map_of (variables (root ds')) ''exit_code'' =
               Some \<lparr>var_datatype = Int8, dimensions = [''p_id''],
                     ncattrs = [(''description'', AttStr exit_code_description),
                                (''code_to_meaning'', AttStr (code_to_meaning_text X))],
                     data = D1 (map (\<lambda>n. real_of_int (astype_byte n)) (exit_code c))\<rparr>"
    by (subst vm) (simp_all add: v)
  with d show ?thesis by blast
qed

section \<open>Ingestion of a chunk that runs backwards\<close>

text \<open>
  C10. A chunk whose last timestamp lies in a strictly earlier calendar year than its
  first: the range of years from the first to the last is empty, so ingestion returns
  without a fault, with the writer (current year, produced paths) and the file system
  exactly as they were.
\<close>

theorem write_output_chunk_backwards_is_noop:
  assumes "time c \<noteq> []"
    and "dt_year (last (time c)) < dt_year (hd (time c))"
  shows "write_output_chunk X c (w, s) = (None, (w, s))"
  using assms by (simp add: write_output_chunk_def Let_def)

theorem write_output_chunk_backwards_is_noop_witness:
  "time (demo_chunk [DT 2000 5, DT 1999 7] 0) \<noteq> []
   \<and> dt_year (last (time (demo_chunk [DT 2000 5, DT 1999 7] 0)))
       < dt_year (hd (time (demo_chunk [DT 2000 5, DT 1999 7] 0)))
   \<and> write_output_chunk demo_externals (demo_chunk [DT 2000 5, DT 1999 7] 0)
        (demo_writer OutputWriter2D, demo_fs) = (None, (demo_writer OutputWriter2D, demo_fs))"
  using write_output_chunk_backwards_is_noop
    [of "demo_chunk [DT 2000 5, DT 1999 7] 0" demo_externals "demo_writer OutputWriter2D" demo_fs]
  by (simp add: demo_chunk_def)

section \<open>The exit-code variable\<close>

text \<open>
  C9. After first-chunk initialization, the variable \<^verbatim>\<open>exit_code\<close> of the new container
  is a signed byte along \<^verbatim>\<open>p_id\<close>, and its attribute \<^verbatim>\<open>code_to_meaning\<close> is the
  text of the dictionary made of the registry's entries whose code is not negative, in
  the registry's order: every entry with a negative code is left out.
\<close>

theorem first_chunk_exit_code_variable:
  assumes "write_first_chunk X w c s = (None, s')"
    and "paths w \<noteq> []"
    and "last (paths w) = year_path w year"
  shows "\<exists>ds v. files s' (last (paths w)) = Some ds
           \<and> map_of (variables (root ds)) ''exit_code'' = Some v
           \<and> var_datatype v = Int8
           \<and> dimensions v = [''p_id'']
           \<and> map_of (ncattrs v) ''code_to_meaning'' =
               Some (AttStr (py_str_dict
                 (map (\<lambda>(code, meaning). (py_str_int code, py_repr_str meaning))
                    (filter (\<lambda>(code, meaning). code \<ge> 0) (EXIT_CODES X)))))"
proof -
  from first_chunk_exit_code[OF assms(1,2) year_path_tmp_free[OF assms(3)]]
  show ?thesis by (auto simp: code_to_meaning_text_def code_to_meaning_def)
qed

theorem first_chunk_exit_code_variable_witness:
  "write_first_chunk demo_externals (set_current_year 1999 (demo_writer OutputWriter2D))
       (demo_chunk [DT 1999 5] 0) demo_fs
     = (None, snd (write_first_chunk demo_externals (set_current_year 1999 (demo_writer OutputWriter2D))
                     (demo_chunk [DT 1999 5] 0) demo_fs))
   \<and> paths (set_current_year 1999 (demo_writer OutputWriter2D)) \<noteq> []
   \<and> last (paths (set_current_year 1999 (demo_writer OutputWriter2D)))
       = year_path (set_current_year 1999 (demo_writer OutputWriter2D)) 1999
   \<and> (\<exists>ds v. files (snd (write_first_chunk demo_externals (set_current_year 1999 (demo_writer OutputWriter2D))
                             (demo_chunk [DT 1999 5] 0) demo_fs))
                  (last (paths (set_current_year 1999 (demo_writer OutputWriter2D)))) = Some ds
           \<and> map_of (variables (root ds)) ''exit_code'' = Some v
           \<and> var_datatype v = Int8
           \<and> dimensions v = [''p_id'']
           \<and> map_of (ncattrs v) ''code_to_meaning'' =
               Some (AttStr (py_str_dict
                 (map (\<lambda>(code, meaning). (py_str_int code, py_repr_str meaning))
                    (filter (\<lambda>(code, meaning). code \<ge> 0) (EXIT_CODES demo_externals))))))"
proof -
  let ?w = "set_current_year 1999 (demo_writer OutputWriter2D)"
  let ?r = "write_first_chunk demo_externals ?w (demo_chunk [DT 1999 5] 0) demo_fs"
  have a: "?r = (None, snd ?r)" using demo_2D_ok[of "[DT 1999 5]" 0] by (simp add: prod_eq_iff)
  have b: "paths ?w \<noteq> []" by (simp add: set_current_year_def)
  have c: "last (paths ?w) = year_path ?w 1999" by (simp add: set_current_year_def year_path_def)
  from first_chunk_exit_code_variable[OF a b c] a b c show ?thesis by blast
qed

section \<open>The provenance attributes\<close>

text \<open>
  C8. After first-chunk initialization, the global attributes of the new container
  record the institution (\<^verbatim>\<open>institution\<close>), the software version (\<^verbatim>\<open>source\<close>) and
  the call (\<^verbatim>\<open>arguments\<close>). The text of the last is
  \<^verbatim>\<open>The arguments of the call to {api_entry} which produced this file are: {api_arguments}\<close>,
  with the writer's entry point and the text of its argument dictionary put in.
\<close>

theorem first_chunk_provenance_attributes:
  assumes "write_first_chunk X w c s = (None, s')"
    and "paths w \<noteq> []"
    and "last (paths w) = year_path w year"
  shows "\<exists>ds. files s' (last (paths w)) = Some ds
           \<and> map_of (attrs (root ds)) ''institution'' = Some (AttStr ''The Ocean Cleanup'')
           \<and> map_of (attrs (root ds)) ''source'' = Some (AttStr (''ADVECTOR Version '' @ version X))
           \<and> map_of (attrs (root ds)) ''arguments'' =
               Some (AttStr (''The arguments of the call to '' @ api_entry w
                             @ '' which produced this file are: ''
                             @ py_str_dict (map (\<lambda>(k, v). (py_repr_str k, v)) (api_arguments w))))"
proof -
  from first_chunk_provenance[OF assms(1,2) year_path_tmp_free[OF assms(3)]]
  show ?thesis by (auto simp: arguments_text_def)
qed

theorem first_chunk_provenance_attributes_witness:
  "write_first_chunk demo_externals (set_current_year 1999 (demo_writer OutputWriter2D))
       (demo_chunk [DT 1999 5] 0) demo_fs
     = (None, snd (write_first_chunk demo_externals (set_current_year 1999 (demo_writer OutputWriter2D))
                     (demo_chunk [DT 1999 5] 0) demo_fs))
   \<and> paths (set_current_year 1999 (demo_writer OutputWriter2D)) \<noteq> []
   \<and> last (paths (set_current_year 1999 (demo_writer OutputWriter2D)))
       = year_path (set_current_year 1999 (demo_writer OutputWriter2D)) 1999
   \<and> (\<exists>ds. files (snd (write_first_chunk demo_externals (set_current_year 1999 (demo_writer OutputWriter2D))
                             (demo_chunk [DT 1999 5] 0) demo_fs))
                  (last (paths (set_current_year 1999 (demo_writer OutputWriter2D)))) = Some ds
           \<and> map_of (attrs (root ds)) ''institution'' = Some (AttStr ''The Ocean Cleanup'')
           \<and> map_of (attrs (root ds)) ''source'' = Some (AttStr (''ADVECTOR Version '' @ version demo_externals))
           \<and> map_of (attrs (root ds)) ''arguments'' =
               Some (AttStr (''The arguments of the call to ''
                             @ api_entry (set_current_year 1999 (demo_writer OutputWriter2D))
                             @ '' which produced this file are: ''
                             @ py_str_dict (map (\<lambda>(k, v). (py_repr_str k, v))
                                 (api_arguments (set_current_year 1999 (demo_writer OutputWriter2D)))))))"
proof -
  let ?w = "set_current_year 1999 (demo_writer OutputWriter2D)"
  let ?r = "write_first_chunk demo_externals ?w (demo_chunk [DT 1999 5] 0) demo_fs"
  have a: "?r = (None, snd ?r)" using demo_2D_ok[of "[DT 1999 5]" 0] by (simp add: prod_eq_iff)
  have b: "paths ?w \<noteq> []" by (simp add: set_current_year_def)
  have c: "last (paths ?w) = year_path ?w 1999" by (simp add: set_current_year_def year_path_def)
  from first_chunk_provenance_attributes[OF a b c] a b c show ?thesis by blast
qed

text \<open>
  The text \<^verbatim>\<open>arguments used to invoke {api_entry}: {api_arguments}\<close> is not what the
  attribute holds: in the example run, whose entry point is \<^verbatim>\<open>run_advector\<close> and whose
  arguments are \<^verbatim>\<open>{'dt': 30}\<close>, initialization returns and the attribute differs from it.
\<close>

theorem first_chunk_arguments_text_counterexample:
  "fst (write_first_chunk demo_externals (set_current_year 1999 (demo_writer OutputWriter2D))
          (demo_chunk [DT 1999 5] 0) demo_fs) = None
   \<and> map_of (attrs (root (the (files
          (snd (write_first_chunk demo_externals (set_current_year 1999 (demo_writer OutputWriter2D))
                  (demo_chunk [DT 1999 5] 0) demo_fs))
          (last (paths (set_current_year 1999 (demo_writer OutputWriter2D))))))))
        ''arguments''
      \<noteq> Some (AttStr (''arguments used to invoke ''
                       @ api_entry (set_current_year 1999 (demo_writer OutputWriter2D)) @ '': ''
                       @ py_str_dict (map (\<lambda>(k, v). (py_repr_str k, v))
                           (api_arguments (set_current_year 1999 (demo_writer OutputWriter2D))))))"
proof -
  let ?w = "set_current_year 1999 (demo_writer OutputWriter2D)"
  let ?r = "write_first_chunk demo_externals ?w (demo_chunk [DT 1999 5] 0) demo_fs"
  have a: "?r = (None, snd ?r)" using demo_2D_ok[of "[DT 1999 5]" 0] by (simp add: prod_eq_iff)
  have b: "paths ?w \<noteq> []" by (simp add: set_current_year_def)
  have c: "last (paths ?w) = year_path ?w 1999" by (simp add: set_current_year_def year_path_def)
  from first_chunk_provenance[OF a b year_path_tmp_free[OF c]]
  have "map_of (attrs (root (the (files (snd ?r) (last (paths ?w)))))) ''arguments''
          = Some (AttStr (arguments_text ?w))"
    by auto
  moreover have "arguments_text ?w \<noteq> ''arguments used to invoke '' @ api_entry ?w @ '': ''
                       @ py_str_dict (map (\<lambda>(k, v). (py_repr_str k, v)) (api_arguments ?w))"
    by (simp add: arguments_text_def)
  ultimately show ?thesis using demo_2D_ok[of "[DT 1999 5]" 0] by simp
qed

end
